theory Spec2Isabelle
  imports Main "HOL-Library.Word" "HOL-Library.AList"
begin

unbundle bit_operations_syntax

section \<open>Data of \<open>main.cpp\<close>\<close>

text \<open>
  Window and monitor handles (\<open>HWND\<close>, \<open>HMONITOR\<close>) are opaque identities; they are
  numbered here, and \<open>Window::NullWindow\<close> is the handle 0.
\<close>

type_synonym hwnd = nat
type_synonym hmonitor = nat

definition NullWindow :: hwnd where
  "NullWindow = 0"

datatype MONITORSTATE = Normal | WindowMaximised | StartMenuOpen

datatype EXITREASON = NewInstance | UserAction | UserActionNoSave

text \<open>
  The accent kinds are the five enumerators of \<open>swca::ACCENT\<close> that \<open>main.cpp\<close> names
  (the header \<open>swcadata.hpp\<close> that declares the enumeration is not part of the sources
  at hand).
\<close>

datatype ACCENT =
    ACCENT_NORMAL
  | ACCENT_ENABLE_TRANSPARENTGRADIENT
  | ACCENT_ENABLE_GRADIENT
  | ACCENT_ENABLE_BLURBEHIND
  | ACCENT_ENABLE_FLUENT

record ACCENTPOLICY =
  nAccentState :: ACCENT
  nFlags :: "32 word"
  nColor :: "32 word"
  nAnimationId :: "32 word"

datatype PEEK = Enabled | Dynamic | DynamicGenerous | Disabled

text \<open>
  The configuration values \<open>Config::...\<close> that \<open>main.cpp\<close> reads. They are declared in
  \<open>config.hpp\<close> and may change between two ticks, so every function takes them as an
  argument.
\<close>

record config =
  TASKBAR_APPEARANCE :: ACCENT
  TASKBAR_COLOR :: "32 word"
  DYNAMIC_WS :: bool
  DYNAMIC_APPEARANCE :: ACCENT
  DYNAMIC_COLOR :: "32 word"
  DYNAMIC_REGULAR_ON_PEEK :: bool
  DYNAMIC_USE_REGULAR_COLOR :: bool
  DYNAMIC_START :: bool
  PEEK :: PEEK
  VERBOSE :: bool

text \<open>
  The operating system as the program queries it during one tick: the answers of the
  Win32 calls and of the external collaborators (\<open>Blacklist::IsBlacklisted\<close>,
  \<open>Util::IsStartVisible\<close>, the \<open>Window\<close> wrapper).
\<close>

record os =
  swca_available :: bool           \<comment> \<open>\<open>user32::SetWindowCompositionAttribute\<close> is not null\<close>
  top_level_windows :: "hwnd list" \<comment> \<open>what \<open>EnumWindows\<close> visits, in order\<close>
  visible :: "hwnd \<Rightarrow> bool"        \<comment> \<open>\<open>window.visible()\<close>\<close>
  IsWindowVisible :: "hwnd \<Rightarrow> bool"
  cloaked :: "hwnd \<Rightarrow> bool"        \<comment> \<open>\<open>get_attribute<BOOL>(DWMWA_CLOAKED)\<close>\<close>
  blacklisted :: "hwnd \<Rightarrow> bool"    \<comment> \<open>\<open>Blacklist::IsBlacklisted\<close>\<close>
  show_state :: "hwnd \<Rightarrow> nat"      \<comment> \<open>\<open>window.state()\<close>\<close>
  on_current_desktop :: "hwnd \<Rightarrow> bool"
  monitor :: "hwnd \<Rightarrow> hmonitor"   \<comment> \<open>\<open>window.monitor()\<close>\<close>
  root_owner :: "hwnd \<Rightarrow> hwnd"     \<comment> \<open>\<open>GetAncestor(hwnd, GA_ROOTOWNER)\<close>\<close>
  last_active_popup :: "hwnd \<Rightarrow> hwnd"
  titlebar_invisible :: "hwnd \<Rightarrow> bool" \<comment> \<open>\<open>rgstate[0] & STATE_SYSTEM_INVISIBLE\<close>\<close>
  tool_window :: "hwnd \<Rightarrow> bool"    \<comment> \<open>\<open>GWL_EXSTYLE & WS_EX_TOOLWINDOW\<close>\<close>
  start_visible :: bool            \<comment> \<open>\<open>Util::IsStartVisible()\<close>\<close>
  start_window :: hwnd             \<comment> \<open>\<open>Find("Windows.UI.Core.CoreWindow", "Start")\<close>\<close>
  shell_tray :: hwnd               \<comment> \<open>\<open>Find("Shell_TrayWnd")\<close>\<close>
  secondary_trays :: "hwnd list"   \<comment> \<open>the successive \<open>Find("Shell_SecondaryTrayWnd", ...)\<close>\<close>
  peek_button :: "hwnd \<Rightarrow> hwnd"    \<comment> \<open>the show-desktop button below a taskbar\<close>

definition SW_SHOWMINIMIZED :: nat where
  "SW_SHOWMINIMIZED = 2"

definition SW_MAXIMIZE :: nat where
  "SW_MAXIMIZE = 3"

text \<open>The calls by which the program acts on the system, in the order it issues them.\<close>

datatype os_call =
    SendThemeChanged hwnd                        \<comment> \<open>\<open>send_message(WM_THEMECHANGED)\<close>\<close>
  | SetWindowCompositionAttribute hwnd ACCENTPOLICY
  | EnumWindowsCall
  | SetLayered hwnd                              \<comment> \<open>\<open>SetWindowLong\<close>, style or \<open>WS_EX_LAYERED\<close>\<close>
  | SetLayeredAlphaZero hwnd                     \<comment> \<open>\<open>SetLayeredWindowAttributes(_, 0, 0, LWA_ALPHA)\<close>\<close>
  | ClearLayered hwnd                            \<comment> \<open>\<open>SetWindowLong\<close>, style without \<open>WS_EX_LAYERED\<close>\<close>
  | ConfigSave string
  | LogOutput string

text \<open>
  The global \<open>run\<close>. The map \<open>taskbars\<close> is an association list with \<open>map_of\<close> for the
  lookup and \<open>AList.update\<close> for the assignment; the order of the list stands for the
  iteration order of the \<open>unordered_map\<close>, which C++ leaves open.
\<close>

type_synonym taskbar_map = "(hmonitor \<times> (hwnd \<times> MONITORSTATE)) list"

record run =
  exit_reason :: EXITREASON
  main_taskbar :: hwnd
  taskbars :: taskbar_map
  should_show_peek :: bool
  is_running :: bool
  config_folder :: string
  config_file :: string
  exclude_file :: string
  peek_active :: bool

text \<open>
  The function-local statics: \<open>is_normal\<close> of \<open>SetWindowBlur\<close>, \<open>cached_peek\<close> and
  \<open>cached_taskbar\<close> of \<open>TogglePeek\<close> (the latter is initialised from \<open>run.main_taskbar\<close>
  by the first call, \<open>None\<close> until then), \<open>counter\<close> of \<open>SetTaskbarBlur\<close>. The counter
  is a C \<open>int\<close>; it stays between 0 and 10 (\<open>counter_range\<close> below), so it is an \<open>int\<close>.
\<close>

record statics =
  is_normal :: "hwnd \<rightharpoonup> bool"
  cached_peek :: bool
  cached_taskbar :: "hwnd option"
  counter :: int

definition initial_statics :: statics where
  "initial_statics =
     \<lparr>is_normal = Map.empty, cached_peek = True, cached_taskbar = None, counter = 10\<rparr>"

definition initial_run :: run where
  "initial_run =
     \<lparr>exit_reason = UserAction, main_taskbar = NullWindow, taskbars = [],
      should_show_peek = True, is_running = True, config_folder = [],
      config_file = [], exclude_file = [], peek_active = False\<rparr>"

datatype error = out_of_range

section \<open>\<open>SetWindowBlur\<close>\<close>

text \<open>The colour the initialiser of \<open>policy\<close> computes (line 97).\<close>

definition swap_red_blue :: "32 word \<Rightarrow> 32 word" where
  "swap_red_blue color =
     (color AND 0xFF00FF00) + drop_bit 16 (color AND 0x00FF0000)
       + push_bit 16 (color AND 0x000000FF)"

definition initial_policy :: "ACCENT \<Rightarrow> 32 word \<Rightarrow> ACCENTPOLICY" where
  "initial_policy appearance color =
     \<lparr>nAccentState = appearance, nFlags = 2, nColor = swap_red_blue color,
      nAnimationId = 0\<rparr>"

definition SetWindowBlur ::
  "os \<Rightarrow> (hwnd \<rightharpoonup> bool) \<Rightarrow> hwnd \<Rightarrow> ACCENT \<Rightarrow> 32 word \<Rightarrow> os_call list \<times> (hwnd \<rightharpoonup> bool)"
where
  "SetWindowBlur sys memo window appearance color =
     (if swca_available sys then
        (let policy = initial_policy appearance color in
         if nAccentState policy = ACCENT_NORMAL then
           (if memo window = None \<or> memo window = Some False
            then ([SendThemeChanged window], memo(window \<mapsto> True))
            else ([], memo))
         else
           (let policy' =
              (if nAccentState policy = ACCENT_ENABLE_FLUENT \<and> drop_bit 24 (nColor policy) = 0
               then policy\<lparr>nColor := push_bit 24 1 + (nColor policy AND 0x00FFFFFF)\<rparr>
               else policy)
            in ([SetWindowCompositionAttribute window policy'], memo(window \<mapsto> False))))
      else ([], memo))"

section \<open>\<open>RefreshHandles\<close> and \<open>TogglePeek\<close>\<close>

definition RefreshHandles :: "config \<Rightarrow> os \<Rightarrow> run \<Rightarrow> os_call list \<times> run" where
  "RefreshHandles cfg sys r =
     (let msgs = (if VERBOSE cfg then [LogOutput ''Refreshing taskbar handles''] else []);
          r1 = r\<lparr>taskbars := []\<rparr>;
          r2 = r1\<lparr>main_taskbar := shell_tray sys\<rparr>;
          r3 = r2\<lparr>taskbars :=
                 AList.update (monitor sys (main_taskbar r2)) (main_taskbar r2, Normal)
                   (taskbars r2)\<rparr>
      in (msgs,
          r3\<lparr>taskbars :=
               foldl (\<lambda>ts secondtaskbar.
                        AList.update (monitor sys secondtaskbar) (secondtaskbar, Normal) ts)
                 (taskbars r3) (secondary_trays sys)\<rparr>))"

definition TogglePeek :: "os \<Rightarrow> run \<Rightarrow> bool \<Rightarrow> statics \<Rightarrow> os_call list \<times> statics" where
  "TogglePeek sys r status st =
     (let st0 = (case cached_taskbar st of
                   None \<Rightarrow> st\<lparr>cached_taskbar := Some (main_taskbar r)\<rparr>
                 | Some _ \<Rightarrow> st)
      in if status \<noteq> cached_peek st0 \<or> cached_taskbar st0 \<noteq> Some (main_taskbar r) then
           (let peek = peek_button sys (main_taskbar r)
            in ((if \<not> status then [SetLayered peek, SetLayeredAlphaZero peek]
                 else [ClearLayered peek]),
                st0\<lparr>cached_peek := status, cached_taskbar := Some (main_taskbar r)\<rparr>))
         else ([], st0))"

section \<open>\<open>isRealWindow\<close> and the window enumeration\<close>

text \<open>
  The loop of \<open>isRealWindow\<close> follows the chain of last active popups; nothing in the
  code bounds it, so it is a partial function and \<open>None\<close> stands for a walk that
  never ends. It returns the final \<open>hwndWalk\<close>.
\<close>

partial_function (option) popup_walk :: "os \<Rightarrow> hwnd \<Rightarrow> hwnd \<Rightarrow> hwnd option" where
  "popup_walk sys hwndTry hwndWalk =
     (if hwndTry \<noteq> hwndWalk then
        (if IsWindowVisible sys (last_active_popup sys hwndTry) then Some hwndTry
         else popup_walk sys (last_active_popup sys hwndTry) hwndTry)
      else Some hwndWalk)"

definition isRealWindow :: "os \<Rightarrow> hwnd \<Rightarrow> bool option" where
  "isRealWindow sys hwnd =
     (if \<not> IsWindowVisible sys hwnd then Some False
      else
        (case popup_walk sys (root_owner sys hwnd) NullWindow of
           None \<Rightarrow> None
         | Some hwndWalk \<Rightarrow>
             Some (if hwndWalk \<noteq> hwnd then False
                   else if titlebar_invisible sys hwnd then False
                   else if tool_window sys hwnd then False
                   else True)))"

text \<open>
  \<open>run.taskbars.at(key)\<close> throws \<open>std::out_of_range\<close> for a key that is not in the map.
  No function of \<open>main.cpp\<close> has a handler, so the exception ends the call, and every
  caller up to \<open>wWinMain\<close>, with \<open>Inl out_of_range\<close>.
\<close>

definition EnumWindowsProcess :: "config \<Rightarrow> os \<Rightarrow> hwnd \<Rightarrow> run \<Rightarrow> (error + run) option" where
  "EnumWindowsProcess cfg sys window r =
     (if visible sys window \<and> \<not> cloaked sys window \<and> \<not> blacklisted sys window then
        (if show_state sys window = SW_MAXIMIZE \<and> on_current_desktop sys window then
           (case map_of (taskbars r) (monitor sys window) of
              None \<Rightarrow> Some (Inl out_of_range)
            | Some taskbar \<Rightarrow>
                (let r1 = (if DYNAMIC_WS cfg
                           then r\<lparr>taskbars :=
                                   AList.update (monitor sys window)
                                     (fst taskbar, WindowMaximised) (taskbars r)\<rparr>
                           else r)
                 in Some (Inr (if (PEEK cfg = Dynamic \<or> PEEK cfg = DynamicGenerous)
                                   \<and> fst taskbar = main_taskbar r1
                               then r1\<lparr>should_show_peek := True\<rparr>
                               else r1))))
         else
           (if PEEK cfg = DynamicGenerous \<and> \<not> should_show_peek r
                 \<and> show_state sys window \<noteq> SW_SHOWMINIMIZED
            then (case isRealWindow sys window of
                    None \<Rightarrow> None
                  | Some real \<Rightarrow> Some (Inr (if real then r\<lparr>should_show_peek := True\<rparr> else r)))
            else Some (Inr r)))
      else Some (Inr r))"

text \<open>
  \<open>EnumWindows\<close> calls the visitor on every top-level window in turn; the visitor always
  returns \<open>true\<close>, so only an exception ends the enumeration early.
\<close>

fun EnumWindows :: "config \<Rightarrow> os \<Rightarrow> hwnd list \<Rightarrow> run \<Rightarrow> (error + run) option" where
  "EnumWindows cfg sys [] r = Some (Inr r)"
| "EnumWindows cfg sys (window # rest) r =
     (case EnumWindowsProcess cfg sys window r of
        None \<Rightarrow> None
      | Some (Inl e) \<Rightarrow> Some (Inl e)
      | Some (Inr r') \<Rightarrow> EnumWindows cfg sys rest r')"

section \<open>\<open>SetTaskbarBlur\<close>\<close>

text \<open>The two loops that set \<open>taskbar.second.second = MONITORSTATE::Normal\<close>.\<close>

definition reset_states :: "taskbar_map \<Rightarrow> taskbar_map" where
  "reset_states ts = map (\<lambda>taskbar. (fst taskbar, (fst (snd taskbar), Normal))) ts"

text \<open>The condition of line 436 under which the windows are enumerated.\<close>

definition enumerates :: "config \<Rightarrow> bool" where
  "enumerates cfg \<longleftrightarrow> DYNAMIC_WS cfg \<or> PEEK cfg = Dynamic \<or> PEEK cfg = DynamicGenerous"

text \<open>Lines 444 to 448: the Start menu.\<close>

definition mark_start_menu :: "config \<Rightarrow> os \<Rightarrow> run \<Rightarrow> error + run" where
  "mark_start_menu cfg sys r =
     (if DYNAMIC_START cfg \<and> start_visible sys then
        (case map_of (taskbars r) (monitor sys (start_window sys)) of
           None \<Rightarrow> Inl out_of_range
         | Some taskbar \<Rightarrow>
             Inr (r\<lparr>taskbars :=
                     AList.update (monitor sys (start_window sys))
                       (fst taskbar, StartMenuOpen) (taskbars r)\<rparr>))
      else Inr r)"

text \<open>The body of \<open>if (counter >= 10)\<close>: one reconciliation pass.\<close>

definition reconciliation_pass ::
  "config \<Rightarrow> os \<Rightarrow> run \<Rightarrow> statics \<Rightarrow> (error + os_call list \<times> run \<times> statics) option"
where
  "reconciliation_pass cfg sys r st =
     (let r1 = r\<lparr>should_show_peek := (PEEK cfg = Enabled)\<rparr>;
          r2 = r1\<lparr>taskbars := reset_states (taskbars r1)\<rparr>
      in case (if enumerates cfg
               then (case EnumWindows cfg sys (top_level_windows sys) r2 of
                       None \<Rightarrow> None
                     | Some (Inl e) \<Rightarrow> Some (Inl e)
                     | Some (Inr r3) \<Rightarrow> Some (Inr ([EnumWindowsCall], r3, st\<lparr>counter := 0\<rparr>)))
               else Some (Inr ([], r2, st))) of
           None \<Rightarrow> None
         | Some (Inl e) \<Rightarrow> Some (Inl e)
         | Some (Inr (calls1, r3, st3)) \<Rightarrow>
             (case TogglePeek sys r3 (should_show_peek r3) st3 of
                (calls2, st4) \<Rightarrow>
                  (case mark_start_menu cfg sys r3 of
                     Inl e \<Rightarrow> Some (Inl e)
                   | Inr r5 \<Rightarrow>
                       (let r6 = (if DYNAMIC_WS cfg \<and> DYNAMIC_REGULAR_ON_PEEK cfg \<and> peek_active r5
                                  then r5\<lparr>taskbars := reset_states (taskbars r5)\<rparr>
                                  else r5)
                        in Some (Inr (calls1 @ calls2, r6, st4\<lparr>counter := 0\<rparr>))))))"

text \<open>The loop of lines 471 to 486: one \<open>SetWindowBlur\<close> for every entry of the map.\<close>

fun blur_taskbars ::
  "config \<Rightarrow> os \<Rightarrow> (hwnd \<rightharpoonup> bool) \<Rightarrow> taskbar_map \<Rightarrow> os_call list \<times> (hwnd \<rightharpoonup> bool)"
where
  "blur_taskbars cfg sys memo [] = ([], memo)"
| "blur_taskbars cfg sys memo (taskbar # rest) =
     (case (case snd (snd taskbar) of
              StartMenuOpen \<Rightarrow> SetWindowBlur sys memo (fst (snd taskbar)) ACCENT_NORMAL 0
            | WindowMaximised \<Rightarrow>
                SetWindowBlur sys memo (fst (snd taskbar)) (DYNAMIC_APPEARANCE cfg)
                  (if DYNAMIC_USE_REGULAR_COLOR cfg then TASKBAR_COLOR cfg
                   else DYNAMIC_COLOR cfg)
            | Normal \<Rightarrow>
                SetWindowBlur sys memo (fst (snd taskbar)) (TASKBAR_APPEARANCE cfg)
                  (TASKBAR_COLOR cfg)) of
        (calls1, memo1) \<Rightarrow>
          (case blur_taskbars cfg sys memo1 rest of
             (calls2, memo2) \<Rightarrow> (calls1 @ calls2, memo2)))"

definition SetTaskbarBlur ::
  "config \<Rightarrow> os \<Rightarrow> run \<Rightarrow> statics \<Rightarrow> (error + os_call list \<times> run \<times> statics) option"
where
  "SetTaskbarBlur cfg sys r st =
     (case (if counter st \<ge> 10 then reconciliation_pass cfg sys r st
            else Some (Inr ([], r, st))) of
        None \<Rightarrow> None
      | Some (Inl e) \<Rightarrow> Some (Inl e)
      | Some (Inr (calls1, r1, st1)) \<Rightarrow>
          (case blur_taskbars cfg sys (is_normal st1) (taskbars r1) of
             (calls2, memo) \<Rightarrow>
               Some (Inr (calls1 @ calls2, r1,
                          st1\<lparr>is_normal := memo, counter := counter st1 + 1\<rparr>))))"

section \<open>The end of \<open>wWinMain\<close>\<close>

text \<open>The loop of lines 752 to 755.\<close>

fun restore_taskbars ::
  "os \<Rightarrow> (hwnd \<rightharpoonup> bool) \<Rightarrow> taskbar_map \<Rightarrow> os_call list \<times> (hwnd \<rightharpoonup> bool)"
where
  "restore_taskbars sys memo [] = ([], memo)"
| "restore_taskbars sys memo (taskbar # rest) =
     (case SetWindowBlur sys memo (fst (snd taskbar)) ACCENT_NORMAL 0 of
        (calls1, memo1) \<Rightarrow>
          (case restore_taskbars sys memo1 rest of
             (calls2, memo2) \<Rightarrow> (calls1 @ calls2, memo2)))"

text \<open>Lines 742 to 756, what \<open>wWinMain\<close> does once \<open>run.is_running\<close> is false.\<close>

definition exit_sequence :: "os \<Rightarrow> run \<Rightarrow> statics \<Rightarrow> os_call list \<times> statics" where
  "exit_sequence sys r st =
     (if exit_reason r \<noteq> NewInstance then
        (let calls0 = (if exit_reason r \<noteq> UserActionNoSave
                       then [ConfigSave (config_file r)] else [])
         in case TogglePeek sys r True st of
              (calls1, st1) \<Rightarrow>
                (case restore_taskbars sys (is_normal st1) (taskbars r) of
                   (calls2, memo) \<Rightarrow> (calls0 @ calls1 @ calls2, st1\<lparr>is_normal := memo\<rparr>)))
      else ([], st))"

section \<open>Notions used in the statements\<close>

text \<open>The packed colour \<open>0xAARRGGBB\<close> with the four byte lanes given.\<close>

definition argb :: "8 word \<Rightarrow> 8 word \<Rightarrow> 8 word \<Rightarrow> 8 word \<Rightarrow> 32 word" where
  "argb a r g b =
     push_bit 24 (ucast a) OR push_bit 16 (ucast r) OR push_bit 8 (ucast g) OR ucast b"

text \<open>
  A window that the visitor takes for maximised on the current desktop is seen on the
  display \<open>m\<close> during an enumeration of \<open>ws\<close>.
\<close>

definition counts_as_maximised :: "os \<Rightarrow> hwnd \<Rightarrow> bool" where
  "counts_as_maximised sys w \<longleftrightarrow>
     visible sys w \<and> \<not> cloaked sys w \<and> \<not> blacklisted sys w
     \<and> show_state sys w = SW_MAXIMIZE \<and> on_current_desktop sys w"

definition maximised_seen :: "os \<Rightarrow> hwnd list \<Rightarrow> hmonitor \<Rightarrow> bool" where
  "maximised_seen sys ws m \<longleftrightarrow> list_ex (\<lambda>w. counts_as_maximised sys w \<and> monitor sys w = m) ws"

text \<open>The displays of the map with their taskbars, without the states.\<close>

definition surfaces :: "taskbar_map \<Rightarrow> (hmonitor \<times> hwnd) list" where
  "surfaces ts = map (\<lambda>taskbar. (fst taskbar, fst (snd taskbar))) ts"


text \<open>The display \<open>m\<close> is the one line 447 marks for the open Start menu.\<close>

definition hosts_start_menu :: "config \<Rightarrow> os \<Rightarrow> hmonitor \<Rightarrow> bool" where
  "hosts_start_menu cfg sys m \<longleftrightarrow>
     DYNAMIC_START cfg \<and> start_visible sys \<and> monitor sys (start_window sys) = m"


text \<open>
  Calls of \<open>SetWindowBlur\<close> with the normal accent on one surface, one after the other,
  one for each colour of the list.
\<close>

fun normal_calls ::
  "os \<Rightarrow> (hwnd \<rightharpoonup> bool) \<Rightarrow> hwnd \<Rightarrow> 32 word list \<Rightarrow> os_call list \<times> (hwnd \<rightharpoonup> bool)"
where
  "normal_calls sys memo w [] = ([], memo)"
| "normal_calls sys memo w (c # cs) =
     (case SetWindowBlur sys memo w ACCENT_NORMAL c of
        (calls1, memo1) \<Rightarrow>
          (case normal_calls sys memo1 w cs of
             (calls2, memo2) \<Rightarrow> (calls1 @ calls2, memo2)))"


text \<open>
  The statics after \<open>n\<close> calls of \<open>SetTaskbarBlur\<close> that returned, whatever the
  configuration, the system and \<open>run\<close> were at each call (the message handlers change
  \<open>run\<close> between two calls, never the statics).
\<close>

inductive after_ticks :: "nat \<Rightarrow> statics \<Rightarrow> bool" where
  start: "after_ticks 0 initial_statics"
| tick: "after_ticks n st \<Longrightarrow> SetTaskbarBlur cfg sys r st = Some (Inr (calls, r', st'))
         \<Longrightarrow> after_ticks (Suc n) st'"

subsection \<open>Concrete systems for the examples\<close>

text \<open>
  Two displays: the main taskbar 10 on display 1, a secondary taskbar 11 on display 2.
  Window 20 is maximised on display 1, window 21 is an ordinary window on display 2,
  window 22 is maximised on a display 3 that has no taskbar entry.
\<close>

definition demo_os :: os where
  "demo_os =
     \<lparr>swca_available = True, top_level_windows = [20, 21],
      visible = (\<lambda>h. h = 20 \<or> h = 21 \<or> h = 22),
      IsWindowVisible = (\<lambda>h. h = 20 \<or> h = 21 \<or> h = 22),
      cloaked = (\<lambda>h. False), blacklisted = (\<lambda>h. False),
      show_state = (\<lambda>h. if h = 20 \<or> h = 22 then 3 else 1),
      on_current_desktop = (\<lambda>h. True),
      monitor = (\<lambda>h. if h = 11 \<or> h = 21 then 2 else if h = 22 then 3 else 1),
      root_owner = (\<lambda>h. h), last_active_popup = (\<lambda>h. h),
      titlebar_invisible = (\<lambda>h. False), tool_window = (\<lambda>h. False),
      start_visible = False, start_window = 30, shell_tray = 10,
      secondary_trays = [11], peek_button = (\<lambda>h. h + 5)\<rparr>"

definition hotplug_os :: os where
  "hotplug_os = demo_os\<lparr>top_level_windows := [22, 20]\<rparr>"

definition legacy_os :: os where
  "legacy_os = demo_os\<lparr>swca_available := False\<rparr>"

definition demo_cfg :: config where
  "demo_cfg =
     \<lparr>TASKBAR_APPEARANCE = ACCENT_ENABLE_BLURBEHIND, TASKBAR_COLOR = 0x00112233,
      DYNAMIC_WS = True, DYNAMIC_APPEARANCE = ACCENT_ENABLE_FLUENT,
      DYNAMIC_COLOR = 0x00445566, DYNAMIC_REGULAR_ON_PEEK = False,
      DYNAMIC_USE_REGULAR_COLOR = False, DYNAMIC_START = False, PEEK = Dynamic,
      VERBOSE = False\<rparr>"


definition demo_run :: run where
  "demo_run = snd (RefreshHandles demo_cfg demo_os initial_run)"

section \<open>The colour of the accent policy\<close>

lemma mask_0xFF: "(0xFF :: 32 word) = mask 8"
  by (simp add: mask_eq_exp_minus_1)

lemma mask_0xFF0000: "(0xFF0000 :: 32 word) = push_bit 16 (mask 8)"
  by (simp add: mask_eq_exp_minus_1 push_bit_eq_mult)

lemma mask_0xFF00FF00: "(0xFF00FF00 :: 32 word) = push_bit 24 (mask 8) OR push_bit 8 (mask 8)"
  by (simp add: mask_eq_exp_minus_1 push_bit_eq_mult)

lemma mask_0xFFFFFF: "(0xFFFFFF :: 32 word) = mask 24"
  by (simp add: mask_eq_exp_minus_1)

text \<open>The three summands have no bit in common, so the sums are bitwise disjunctions.\<close>

lemma swap_red_blue_or:
  "swap_red_blue c =
     (c AND (push_bit 24 (mask 8) OR push_bit 8 (mask 8)))
       OR drop_bit 16 (c AND push_bit 16 (mask 8)) OR push_bit 16 (c AND mask 8)"
  unfolding swap_red_blue_def mask_0xFF mask_0xFF0000 mask_0xFF00FF00
  apply (subst disjunctive_add_eq_or)
  subgoal by (rule bit_eqI) (auto simp: bit_simps)
  apply (subst disjunctive_add_eq_or)
  subgoal by (rule bit_eqI) (auto simp: bit_simps)
  apply (simp add: or.assoc)
  done

lemma bit_swap_red_blue:
  "bit (swap_red_blue c) n \<longleftrightarrow>
     n < 32 \<and> (if n < 8 then bit c (n + 16)
               else if n < 16 then bit c n
               else if n < 24 then bit c (n - 16)
               else bit c n)"
  apply (simp only: swap_red_blue_or)
  apply (simp add: bit_simps)
  apply (auto simp: add.commute dest: bit_imp_le_length)
  done

lemma bit_argb:
  "bit (argb a r g b) n \<longleftrightarrow>
     (if n < 8 then bit b n
      else if n < 16 then bit g (n - 8)
      else if n < 24 then bit r (n - 16)
      else n < 32 \<and> bit a (n - 24))"
  apply (simp only: argb_def)
  apply (simp add: bit_simps)
  apply (auto dest: bit_imp_le_length)
  done

lemma swap_red_blue_argb: "swap_red_blue (argb a r g b) = argb a b g r"
  apply (rule bit_eqI)
  apply (simp add: bit_swap_red_blue bit_argb)
  apply (auto dest: bit_imp_le_length)
  done

text \<open>Every 32-bit colour is the packing of its four bytes.\<close>

lemma argb_bytes:
  "argb (ucast (drop_bit 24 c)) (ucast (drop_bit 16 c)) (ucast (drop_bit 8 c)) (ucast c) = c"
  apply (rule bit_eqI)
  apply (simp add: bit_argb bit_simps)
  apply (auto dest: bit_imp_le_length)
  done

text \<open>
  C10. The reordering of line 97 is an involution: applied twice to any 32-bit colour it
  gives the colour back.
\<close>

theorem swap_red_blue_involution: "swap_red_blue (swap_red_blue c) = c"
  apply (rule bit_eqI)
  apply (simp add: bit_swap_red_blue)
  apply (auto dest: bit_imp_le_length)
  done

subsection \<open>The correction for the fluent accent\<close>

lemma bit_2_pow_24: "bit (16777216 :: int) n \<longleftrightarrow> n = 24"
proof -
  have "(16777216 :: int) = 2 ^ 24" by simp
  then have "bit (16777216 :: int) n = bit ((2::int) ^ 24) n" by (simp only:)
  also have "\<dots> \<longleftrightarrow> n = 24"
    by (simp only: bit_exp_iff) auto
  finally show ?thesis .
qed

lemma alpha_one_or:
  "push_bit 24 1 + (x AND 0x00FFFFFF) = push_bit 24 1 OR (x AND mask 24)" for x :: "32 word"
  unfolding mask_0xFFFFFF
  apply (rule disjunctive_add_eq_or)
  apply (rule bit_eqI)
  apply (auto simp: bit_simps bit_2_pow_24)
  done

lemma alpha_one_alpha: "drop_bit 24 (push_bit 24 1 + (x AND 0x00FFFFFF)) = 1" for x :: "32 word"
  unfolding alpha_one_or
  apply (rule bit_eqI)
  apply (auto simp: bit_simps bit_2_pow_24)
  done

lemma alpha_one_low:
  "(push_bit 24 1 + (x AND 0x00FFFFFF)) AND 0x00FFFFFF = x AND 0x00FFFFFF" for x :: "32 word"
  unfolding alpha_one_or
  unfolding mask_0xFFFFFF
  apply (rule bit_eqI)
  apply (auto simp: bit_simps bit_2_pow_24)
  done

text \<open>
  C5. Every compositing call that \<open>SetWindowBlur\<close> issues is for the given window and
  accent, and its colour is this: for the fluent accent with an alpha byte of 0 in the
  reordered colour, the alpha byte is 1 and the low 24 bits are those of the reordered
  colour; in every other case (a nonzero alpha byte such as \<open>0x10\<close>, or any other
  accent) it is the reordered colour itself. With the entry point available and an
  accent other than the normal one, exactly one such call is issued.
\<close>

theorem fluent_zero_alpha_is_raised_to_one:
  "(\<forall>w' p. SetWindowCompositionAttribute w' p
              \<in> set (fst (SetWindowBlur sys memo window appearance color)) \<longrightarrow>
        w' = window \<and> nAccentState p = appearance \<and> appearance \<noteq> ACCENT_NORMAL
        \<and> (if appearance = ACCENT_ENABLE_FLUENT \<and> drop_bit 24 (swap_red_blue color) = 0
           then drop_bit 24 (nColor p) = 1
                \<and> nColor p AND 0x00FFFFFF = swap_red_blue color AND 0x00FFFFFF
           else nColor p = swap_red_blue color))
   \<and> (swca_available sys \<and> appearance \<noteq> ACCENT_NORMAL \<longrightarrow>
        (\<exists>p. fst (SetWindowBlur sys memo window appearance color)
               = [SetWindowCompositionAttribute window p]))"
  by (auto simp add: SetWindowBlur_def initial_policy_def Let_def alpha_one_alpha alpha_one_low
        simp del: push_bit_of_1 split: if_splits)

theorem fluent_zero_alpha_witness:
  "swca_available demo_os \<and> ACCENT_ENABLE_FLUENT \<noteq> ACCENT_NORMAL
   \<and> drop_bit 24 (swap_red_blue 0x00112233) = 0
   \<and> fst (SetWindowBlur demo_os Map.empty 10 ACCENT_ENABLE_FLUENT 0x00112233)
       = [SetWindowCompositionAttribute 10
            \<lparr>nAccentState = ACCENT_ENABLE_FLUENT, nFlags = 2, nColor = 0x01332211,
             nAnimationId = 0\<rparr>]
   \<and> drop_bit 24 (0x01332211 :: 32 word) = 1
   \<and> (0x01332211 :: 32 word) AND 0x00FFFFFF = swap_red_blue 0x00112233 AND 0x00FFFFFF"
proof -
  have a: "swca_available demo_os" by (simp add: demo_os_def)
  have z: "drop_bit 24 (swap_red_blue 0x00112233) = 0"
    by (simp add: swap_red_blue_def drop_bit_eq_div)
  have c: "fst (SetWindowBlur demo_os Map.empty 10 ACCENT_ENABLE_FLUENT 0x00112233)
       = [SetWindowCompositionAttribute 10
            \<lparr>nAccentState = ACCENT_ENABLE_FLUENT, nFlags = 2, nColor = 0x01332211,
             nAnimationId = 0\<rparr>]"
    by (simp add: SetWindowBlur_def initial_policy_def Let_def demo_os_def swap_red_blue_def
          drop_bit_eq_div)
  from fluent_zero_alpha_is_raised_to_one
         [where sys = demo_os and memo = Map.empty and window = 10
            and appearance = ACCENT_ENABLE_FLUENT and color = "0x00112233"] z c
  have "drop_bit 24 (0x01332211 :: 32 word) = 1
        \<and> (0x01332211 :: 32 word) AND 0x00FFFFFF = swap_red_blue 0x00112233 AND 0x00FFFFFF"
    by simp
  with a z c show ?thesis by simp
qed

section \<open>What one call of \<open>SetWindowBlur\<close> issues\<close>

lemma SetWindowBlur_normal_calls:
  "set (fst (SetWindowBlur sys memo w ACCENT_NORMAL c)) \<subseteq> {SendThemeChanged w}"
  by (simp add: SetWindowBlur_def initial_policy_def Let_def)

lemma SetWindowBlur_normal_sends:
  "swca_available sys \<Longrightarrow> memo w \<noteq> Some True \<Longrightarrow>
     fst (SetWindowBlur sys memo w ACCENT_NORMAL c) = [SendThemeChanged w]"
  by (cases "memo w") (auto simp: SetWindowBlur_def initial_policy_def Let_def)

lemma SetWindowBlur_normal_memo:
  "swca_available sys \<Longrightarrow> snd (SetWindowBlur sys memo w ACCENT_NORMAL c) w = Some True"
  by (cases "memo w") (auto simp: SetWindowBlur_def initial_policy_def Let_def)

lemma SetWindowBlur_normal_keeps_true:
  "memo v = Some True \<Longrightarrow> snd (SetWindowBlur sys memo w ACCENT_NORMAL c) v = Some True"
  by (auto simp: SetWindowBlur_def initial_policy_def Let_def)

lemma SetWindowBlur_other_memo:
  "v \<noteq> w \<Longrightarrow> snd (SetWindowBlur sys memo w a c) v = memo v"
  by (auto simp: SetWindowBlur_def initial_policy_def Let_def)



lemma SetWindowBlur_without_entry_point:
  "\<not> swca_available sys \<Longrightarrow> SetWindowBlur sys memo w a c = ([], memo)"
  by (simp add: SetWindowBlur_def)

section \<open>The colour of the compositing call\<close>

lemma alpha_of_argb: "drop_bit 24 (argb a r g b) = ucast a"
  apply (rule bit_eqI)
  apply (simp add: bit_argb bit_simps)
  apply (auto dest: bit_imp_le_length)
  done

lemma ucast_byte_eq_0: "(ucast (a :: 8 word) :: 32 word) = 0 \<longleftrightarrow> a = 0"
proof
  assume "(ucast a :: 32 word) = 0"
  then have "bit (ucast a :: 32 word) n = bit (0 :: 32 word) n" for n by simp
  then have *: "n < 32 \<longrightarrow> \<not> bit a n" for n
    by (simp add: bit_simps)
  have "\<not> bit a n" for n
  proof
    assume b: "bit a n"
    then have "n < 8" by (auto dest: bit_imp_le_length)
    with * [of n] b show False by simp
  qed
  then show "a = 0" by (simp add: bit_eq_iff)
qed simp

lemma alpha_of_argb_zero: "drop_bit 24 (argb a r g b) = 0 \<longleftrightarrow> a = 0"
  by (simp add: alpha_of_argb ucast_byte_eq_0)

lemma alpha_one_argb: "push_bit 24 1 + (argb 0 r g b AND 0x00FFFFFF) = argb 1 r g b"
  unfolding alpha_one_or
  apply (rule bit_eqI)
  apply (simp add: bit_argb bit_simps bit_2_pow_24)
  done

lemma SetWindowBlur_sends_argb:
  assumes "swca_available sys" "appearance \<noteq> ACCENT_NORMAL"
  shows "fst (SetWindowBlur sys memo window appearance (argb a r g b)) =
          [SetWindowCompositionAttribute window
             \<lparr>nAccentState = appearance, nFlags = 2,
              nColor = argb (if appearance = ACCENT_ENABLE_FLUENT \<and> a = 0 then 1 else a) b g r,
              nAnimationId = 0\<rparr>]"
proof (cases "appearance = ACCENT_ENABLE_FLUENT \<and> a = 0")
  case True
  with assms show ?thesis
    by (simp add: SetWindowBlur_def initial_policy_def Let_def swap_red_blue_argb
          alpha_of_argb_zero alpha_one_argb del: push_bit_of_1)
next
  case False
  with assms show ?thesis
    by (auto simp add: SetWindowBlur_def initial_policy_def Let_def swap_red_blue_argb
          alpha_of_argb_zero simp del: push_bit_of_1)
qed

lemma SetWindowBlur_sends_boundaries:
  assumes "swca_available sys" "appearance \<noteq> ACCENT_NORMAL"
  shows "fst (SetWindowBlur sys memo window appearance 0xFFFFFFFF) =
          [SetWindowCompositionAttribute window
             \<lparr>nAccentState = appearance, nFlags = 2, nColor = 0xFFFFFFFF, nAnimationId = 0\<rparr>]"
    and "fst (SetWindowBlur sys memo window appearance 0xFF0000FF) =
          [SetWindowCompositionAttribute window
             \<lparr>nAccentState = appearance, nFlags = 2, nColor = 0xFFFF0000, nAnimationId = 0\<rparr>]"
    and "fst (SetWindowBlur sys memo window appearance 0xFFFF0000) =
          [SetWindowCompositionAttribute window
             \<lparr>nAccentState = appearance, nFlags = 2, nColor = 0xFF0000FF, nAnimationId = 0\<rparr>]"
    and "fst (SetWindowBlur sys memo window appearance 0x00000000) =
          [SetWindowCompositionAttribute window
             \<lparr>nAccentState = appearance, nFlags = 2,
              nColor = (if appearance = ACCENT_ENABLE_FLUENT then 0x01000000 else 0x00000000),
              nAnimationId = 0\<rparr>]"
  using assms
  by (simp_all add: SetWindowBlur_def initial_policy_def Let_def swap_red_blue_def
        drop_bit_eq_div)

text \<open>
  C2, as stated, fails for the fluent accent: the colour \<open>0x00000000\<close> does not go out as
  \<open>0x00000000\<close> but, after line 115, as \<open>0x01000000\<close>.
\<close>

theorem fluent_zero_color_is_not_kept:
  "swca_available demo_os
   \<and> fst (SetWindowBlur demo_os Map.empty 10 ACCENT_ENABLE_FLUENT 0x00000000)
       = [SetWindowCompositionAttribute 10
            \<lparr>nAccentState = ACCENT_ENABLE_FLUENT, nFlags = 2, nColor = 0x01000000,
             nAnimationId = 0\<rparr>]"
  by (simp add: SetWindowBlur_def initial_policy_def Let_def swap_red_blue_def
        drop_bit_eq_div demo_os_def)

text \<open>
  C2, amended. With the entry point available and an accent other than the normal one,
  \<open>SetWindowBlur\<close> issues exactly one compositing call, for the given window and accent
  and with the flags 2; for the colour \<open>0xAARRGGBB\<close> its colour field is \<open>0xAABBGGRR\<close>
  (alpha and green keep their lanes, red and blue change places), except that for the
  fluent accent an alpha byte of 0 goes out as 1. In particular \<open>0xFFFFFFFF\<close> goes out as
  \<open>0xFFFFFFFF\<close>, \<open>0xFF0000FF\<close> as \<open>0xFFFF0000\<close>, \<open>0xFFFF0000\<close> as \<open>0xFF0000FF\<close>, and
  \<open>0x00000000\<close> as \<open>0x00000000\<close> for every accent but the fluent one, for which it goes
  out as \<open>0x01000000\<close>. Without the entry point, or with the normal accent, no
  compositing call is issued, so no colour goes out.
\<close>

theorem compositing_call_color:
  "(swca_available sys \<and> appearance \<noteq> ACCENT_NORMAL \<longrightarrow>
      fst (SetWindowBlur sys memo window appearance (argb a r g b)) =
        [SetWindowCompositionAttribute window
           \<lparr>nAccentState = appearance, nFlags = 2,
            nColor = argb (if appearance = ACCENT_ENABLE_FLUENT \<and> a = 0 then 1 else a) b g r,
            nAnimationId = 0\<rparr>]
    \<and> fst (SetWindowBlur sys memo window appearance 0xFFFFFFFF) =
        [SetWindowCompositionAttribute window
           \<lparr>nAccentState = appearance, nFlags = 2, nColor = 0xFFFFFFFF, nAnimationId = 0\<rparr>]
    \<and> fst (SetWindowBlur sys memo window appearance 0xFF0000FF) =
        [SetWindowCompositionAttribute window
           \<lparr>nAccentState = appearance, nFlags = 2, nColor = 0xFFFF0000, nAnimationId = 0\<rparr>]
    \<and> fst (SetWindowBlur sys memo window appearance 0xFFFF0000) =
        [SetWindowCompositionAttribute window
           \<lparr>nAccentState = appearance, nFlags = 2, nColor = 0xFF0000FF, nAnimationId = 0\<rparr>]
    \<and> fst (SetWindowBlur sys memo window appearance 0x00000000) =
        [SetWindowCompositionAttribute window
           \<lparr>nAccentState = appearance, nFlags = 2,
            nColor = (if appearance = ACCENT_ENABLE_FLUENT then 0x01000000 else 0x00000000),
            nAnimationId = 0\<rparr>])
   \<and> (\<not> swca_available sys \<or> appearance = ACCENT_NORMAL \<longrightarrow>
        (\<forall>w' p. SetWindowCompositionAttribute w' p
                  \<notin> set (fst (SetWindowBlur sys memo window appearance color))))"
proof -
  have 1: "\<forall>w' p. SetWindowCompositionAttribute w' p
                  \<notin> set (fst (SetWindowBlur sys memo window appearance color))"
    if "\<not> swca_available sys \<or> appearance = ACCENT_NORMAL"
    using that
    by (auto simp: SetWindowBlur_def initial_policy_def Let_def)
  have 2: "fst (SetWindowBlur sys memo window appearance (argb a r g b)) =
        [SetWindowCompositionAttribute window
           \<lparr>nAccentState = appearance, nFlags = 2,
            nColor = argb (if appearance = ACCENT_ENABLE_FLUENT \<and> a = 0 then 1 else a) b g r,
            nAnimationId = 0\<rparr>]"
    if "swca_available sys" "appearance \<noteq> ACCENT_NORMAL"
    using that by (rule SetWindowBlur_sends_argb)
  note 3 = SetWindowBlur_sends_boundaries [where sys = sys and appearance = appearance
             and memo = memo and window = window]
  show ?thesis
  proof (intro conjI impI)
    assume "\<not> swca_available sys \<or> appearance = ACCENT_NORMAL"
    then show "\<forall>w' p. SetWindowCompositionAttribute w' p
                  \<notin> set (fst (SetWindowBlur sys memo window appearance color))"
      by (rule 1)
  qed (use 2 3 in simp_all)
qed

theorem compositing_call_color_witness:
  "swca_available demo_os \<and> ACCENT_ENABLE_BLURBEHIND \<noteq> ACCENT_NORMAL
   \<and> fst (SetWindowBlur demo_os Map.empty 10 ACCENT_ENABLE_BLURBEHIND
            (argb 0x11 0x22 0x33 0x44))
       = [SetWindowCompositionAttribute 10
            \<lparr>nAccentState = ACCENT_ENABLE_BLURBEHIND, nFlags = 2,
             nColor = argb 0x11 0x44 0x33 0x22, nAnimationId = 0\<rparr>]
   \<and> fst (SetWindowBlur demo_os Map.empty 10 ACCENT_ENABLE_BLURBEHIND 0xFF0000FF)
       = [SetWindowCompositionAttribute 10
            \<lparr>nAccentState = ACCENT_ENABLE_BLURBEHIND, nFlags = 2, nColor = 0xFFFF0000,
             nAnimationId = 0\<rparr>]
   \<and> SetWindowCompositionAttribute 10
         \<lparr>nAccentState = ACCENT_NORMAL, nFlags = 2, nColor = 0x44332211, nAnimationId = 0\<rparr>
       \<notin> set (fst (SetWindowBlur demo_os Map.empty 10 ACCENT_NORMAL 0x11223344))"
proof -
  have a: "swca_available demo_os" "ACCENT_ENABLE_BLURBEHIND \<noteq> ACCENT_NORMAL"
    by (simp_all add: demo_os_def)
  from compositing_call_color
         [where sys = demo_os and appearance = ACCENT_ENABLE_BLURBEHIND and memo = Map.empty
            and window = 10 and a = "0x11" and r = "0x22" and g = "0x33" and b = "0x44"] a
  have 1: "fst (SetWindowBlur demo_os Map.empty 10 ACCENT_ENABLE_BLURBEHIND
            (argb 0x11 0x22 0x33 0x44))
       = [SetWindowCompositionAttribute 10
            \<lparr>nAccentState = ACCENT_ENABLE_BLURBEHIND, nFlags = 2,
             nColor = argb 0x11 0x44 0x33 0x22, nAnimationId = 0\<rparr>]"
    and 2: "fst (SetWindowBlur demo_os Map.empty 10 ACCENT_ENABLE_BLURBEHIND 0xFF0000FF)
       = [SetWindowCompositionAttribute 10
            \<lparr>nAccentState = ACCENT_ENABLE_BLURBEHIND, nFlags = 2, nColor = 0xFFFF0000,
             nAnimationId = 0\<rparr>]"
    by simp_all
  from compositing_call_color
         [where sys = demo_os and appearance = ACCENT_NORMAL and memo = Map.empty
            and window = 10 and color = "0x11223344"]
  have 3: "SetWindowCompositionAttribute 10
         \<lparr>nAccentState = ACCENT_NORMAL, nFlags = 2, nColor = 0x44332211, nAnimationId = 0\<rparr>
       \<notin> set (fst (SetWindowBlur demo_os Map.empty 10 ACCENT_NORMAL 0x11223344))"
    by simp
  from a 1 2 3 show ?thesis by (intro conjI)
qed

section \<open>The memo of \<open>SetWindowBlur\<close>\<close>

text \<open>
  C3, as stated, fails where the entry point \<open>user32::SetWindowCompositionAttribute\<close> is
  missing: the surface has no memo entry, and the call with the normal accent sends
  nothing.
\<close>

theorem normal_accent_without_entry_point:
  "Map.empty (10 :: hwnd) = (None :: bool option)
   \<and> SetWindowBlur legacy_os Map.empty 10 ACCENT_NORMAL 0 = ([], Map.empty)"
  by (simp add: SetWindowBlur_def legacy_os_def demo_os_def)

lemma normal_calls_when_normal:
  "swca_available sys \<Longrightarrow> memo w = Some True \<Longrightarrow> normal_calls sys memo w cs = ([], memo)"
proof (induction cs)
  case Nil
  then show ?case by simp
next
  case (Cons c cs)
  from Cons.prems have "SetWindowBlur sys memo w ACCENT_NORMAL c = ([], memo)"
    by (simp add: SetWindowBlur_def initial_policy_def Let_def)
  with Cons show ?case by simp
qed

lemma SetWindowBlur_normal_exact:
  "swca_available sys \<Longrightarrow>
     SetWindowBlur sys memo w ACCENT_NORMAL c =
       (if memo w = None \<or> memo w = Some False
        then ([SendThemeChanged w], memo(w \<mapsto> True)) else ([], memo))"
  by (simp add: SetWindowBlur_def initial_policy_def Let_def)

text \<open>
  C3, amended. A call with the normal accent never issues a compositing call. When the
  entry point is available, such a call sends the theme-changed message to the surface
  exactly when the memo of the surface is absent or false, and then sets it; one or more
  such calls in a row on the same surface send the message at most once in all (every
  call after the first sends nothing); and a call with any other accent sets the memo to
  false, so that the next call with the normal accent sends the message again. When the
  entry point is not available, a call with any accent issues nothing and leaves the
  memo as it was.
\<close>

theorem normal_accent_is_memoised:
  "(\<forall>w' p. SetWindowCompositionAttribute w' p
              \<notin> set (fst (SetWindowBlur sys memo w ACCENT_NORMAL c)))
   \<and> (swca_available sys \<longrightarrow>
        SetWindowBlur sys memo w ACCENT_NORMAL c =
          (if memo w = None \<or> memo w = Some False
           then ([SendThemeChanged w], memo(w \<mapsto> True)) else ([], memo))
        \<and> fst (normal_calls sys memo w (c # cs))
            = (if memo w = None \<or> memo w = Some False then [SendThemeChanged w] else [])
        \<and> fst (normal_calls sys (snd (SetWindowBlur sys memo w ACCENT_NORMAL c)) w cs) = []
        \<and> (a \<noteq> ACCENT_NORMAL \<longrightarrow>
             snd (SetWindowBlur sys memo w a c) w = Some False
             \<and> fst (SetWindowBlur sys (snd (SetWindowBlur sys memo w a c)) w ACCENT_NORMAL c2)
                 = [SendThemeChanged w]))
   \<and> (\<not> swca_available sys \<longrightarrow> SetWindowBlur sys memo w a c = ([], memo))"
proof -
  have 1: "\<forall>w' p. SetWindowCompositionAttribute w' p
              \<notin> set (fst (SetWindowBlur sys memo w ACCENT_NORMAL c))"
    by (simp add: SetWindowBlur_def initial_policy_def Let_def)
  have 2: "SetWindowBlur sys memo w ACCENT_NORMAL c =
          (if memo w = None \<or> memo w = Some False
           then ([SendThemeChanged w], memo(w \<mapsto> True)) else ([], memo))"
    if "swca_available sys"
    using that by (rule SetWindowBlur_normal_exact)
  have after: "normal_calls sys (snd (SetWindowBlur sys memo w ACCENT_NORMAL c)) w cs
                 = ([], snd (SetWindowBlur sys memo w ACCENT_NORMAL c))"
    if a: "swca_available sys"
  proof -
    have "snd (SetWindowBlur sys memo w ACCENT_NORMAL c) w = Some True"
      using a by (rule SetWindowBlur_normal_memo)
    with a show ?thesis by (rule normal_calls_when_normal)
  qed
  have 3: "fst (normal_calls sys (snd (SetWindowBlur sys memo w ACCENT_NORMAL c)) w cs) = []"
    if "swca_available sys"
    using after [OF that] by simp
  have 4: "fst (normal_calls sys memo w (c # cs))
            = (if memo w = None \<or> memo w = Some False then [SendThemeChanged w] else [])"
    if a: "swca_available sys"
  proof -
    have "fst (normal_calls sys memo w (c # cs))
            = fst (SetWindowBlur sys memo w ACCENT_NORMAL c)
              @ fst (normal_calls sys (snd (SetWindowBlur sys memo w ACCENT_NORMAL c)) w cs)"
      by (simp split: prod.splits)
    with 3 [OF a] 2 [OF a] show ?thesis by simp
  qed
  have 5: "snd (SetWindowBlur sys memo w a c) w = Some False
             \<and> fst (SetWindowBlur sys (snd (SetWindowBlur sys memo w a c)) w ACCENT_NORMAL c2)
                 = [SendThemeChanged w]"
    if "swca_available sys" "a \<noteq> ACCENT_NORMAL"
    using that by (simp add: SetWindowBlur_def initial_policy_def Let_def)
  have 6: "SetWindowBlur sys memo w a c = ([], memo)" if "\<not> swca_available sys"
    using that by (rule SetWindowBlur_without_entry_point)
  from 1 2 3 4 5 6 show ?thesis by blast
qed

theorem normal_accent_is_memoised_witness:
  "swca_available demo_os
   \<and> fst (normal_calls demo_os Map.empty 10 [0, 0, 0]) = [SendThemeChanged 10]
   \<and> fst (normal_calls demo_os (snd (SetWindowBlur demo_os Map.empty 10 ACCENT_NORMAL 0))
            10 [0, 0]) = []
   \<and> ACCENT_ENABLE_BLURBEHIND \<noteq> ACCENT_NORMAL
   \<and> fst (SetWindowBlur demo_os
            (snd (SetWindowBlur demo_os Map.empty 10 ACCENT_ENABLE_BLURBEHIND 0))
            10 ACCENT_NORMAL 0) = [SendThemeChanged 10]
   \<and> \<not> swca_available legacy_os
   \<and> SetWindowBlur legacy_os Map.empty 10 ACCENT_ENABLE_BLURBEHIND 0 = ([], Map.empty)"
proof -
  have a: "swca_available demo_os" "\<not> swca_available legacy_os"
    by (simp_all add: demo_os_def legacy_os_def)
  from normal_accent_is_memoised
         [where sys = demo_os and memo = Map.empty and w = 10 and c = 0 and cs = "[0, 0]"
            and ?c2.0 = 0 and a = ACCENT_ENABLE_BLURBEHIND]
       normal_accent_is_memoised
         [where sys = legacy_os and memo = Map.empty and w = 10 and c = 0 and cs = "[]"
            and ?c2.0 = 0 and a = ACCENT_ENABLE_BLURBEHIND]
       a
  show ?thesis by (auto simp del: normal_calls.simps)
qed

section \<open>\<open>TogglePeek\<close>\<close>

text \<open>
  C6. \<open>TogglePeek\<close> touches the peek button exactly when the requested status differs from
  the cached one or the cached taskbar is not the main taskbar (the cache of the taskbar
  starts as the main taskbar of the first call). When it does, it hides the button with
  the layered style or shows it by clearing that style, and stores the status and the
  main taskbar in the cache; when it does not, the cached status stays. So on an unchanged
  taskbar with the cached status true, the calls with true, true and false touch the
  button once, at the third call.
\<close>

theorem TogglePeek_is_memoised:
  "(fst (TogglePeek sys r status st) \<noteq> [] \<longleftrightarrow>
      status \<noteq> cached_peek st
      \<or> cached_taskbar st \<noteq> None \<and> cached_taskbar st \<noteq> Some (main_taskbar r))
   \<and> (fst (TogglePeek sys r status st) \<noteq> [] \<longrightarrow>
        fst (TogglePeek sys r status st) =
          (if status then [ClearLayered (peek_button sys (main_taskbar r))]
           else [SetLayered (peek_button sys (main_taskbar r)),
                 SetLayeredAlphaZero (peek_button sys (main_taskbar r))])
        \<and> cached_peek (snd (TogglePeek sys r status st)) = status
        \<and> cached_taskbar (snd (TogglePeek sys r status st)) = Some (main_taskbar r))
   \<and> (fst (TogglePeek sys r status st) = [] \<longrightarrow>
        cached_peek (snd (TogglePeek sys r status st)) = cached_peek st
        \<and> cached_taskbar (snd (TogglePeek sys r status st)) = Some (main_taskbar r))
   \<and> (cached_peek st
        \<and> (cached_taskbar st = None \<or> cached_taskbar st = Some (main_taskbar r)) \<longrightarrow>
        fst (TogglePeek sys r True st) = []
        \<and> fst (TogglePeek sys r True (snd (TogglePeek sys r True st))) = []
        \<and> fst (TogglePeek sys r False
                 (snd (TogglePeek sys r True (snd (TogglePeek sys r True st)))))
            = [SetLayered (peek_button sys (main_taskbar r)),
               SetLayeredAlphaZero (peek_button sys (main_taskbar r))])"
  by (auto simp add: TogglePeek_def Let_def split: option.splits)

theorem TogglePeek_is_memoised_witness:
  "cached_peek initial_statics \<and> cached_taskbar initial_statics = None
   \<and> fst (TogglePeek demo_os demo_run True initial_statics) = []
   \<and> fst (TogglePeek demo_os demo_run True
            (snd (TogglePeek demo_os demo_run True initial_statics))) = []
   \<and> fst (TogglePeek demo_os demo_run False
            (snd (TogglePeek demo_os demo_run True
                   (snd (TogglePeek demo_os demo_run True initial_statics)))))
       = [SetLayered 15, SetLayeredAlphaZero 15]
   \<and> cached_peek (snd (TogglePeek demo_os demo_run False initial_statics)) = False"
proof -
  have i: "cached_peek initial_statics" "cached_taskbar initial_statics = None"
    by (simp_all add: initial_statics_def)
  have m: "main_taskbar demo_run = 10"
    by (simp add: demo_run_def RefreshHandles_def Let_def demo_os_def)
  have p: "peek_button demo_os 10 = 15" by (simp add: demo_os_def)
  from TogglePeek_is_memoised
         [where sys = demo_os and r = demo_run and st = initial_statics and status = False]
       TogglePeek_is_memoised
         [where sys = demo_os and r = demo_run and st = initial_statics and status = True]
       i m p
  show ?thesis by simp
qed

section \<open>\<open>RefreshHandles\<close>\<close>

lemma update_entries: "e \<in> set (AList.update k v ts) \<Longrightarrow> e = (k, v) \<or> e \<in> set ts"
  by (induction ts) (auto split: if_splits)

lemma foldl_update_entries:
  "e \<in> set (foldl (\<lambda>ts w. AList.update (f w) (w, Normal) ts) ts0 ws)
   \<Longrightarrow> e \<in> set ts0 \<or> (\<exists>w \<in> set ws. e = (f w, (w, Normal)))"
proof (induction ws arbitrary: ts0)
  case Nil
  then show ?case by simp
next
  case (Cons w ws)
  from Cons.IH [OF Cons.prems [simplified]]
  show ?case by (auto dest: update_entries)
qed

lemma foldl_update_keys:
  "fst ` set (foldl (\<lambda>ts w. AList.update (f w) (g w) ts) ts0 ws) = fst ` set ts0 \<union> f ` set ws"
  by (induction ws arbitrary: ts0) (auto simp: AList.dom_update)

lemma foldl_update_distinct:
  "distinct (map fst ts0) \<Longrightarrow>
   distinct (map fst (foldl (\<lambda>ts w. AList.update (f w) (g w) ts) ts0 ws))"
  by (induction ws arbitrary: ts0) (auto simp: AList.distinct_update)

text \<open>
  C9. \<open>RefreshHandles\<close> empties the map and then stores the main taskbar and every
  secondary taskbar found under its display, each with the state \<open>Normal\<close>. The map it
  leaves does not depend on the map it found, so no earlier entry survives; every entry
  is a taskbar just found, under the display of that taskbar, with the state \<open>Normal\<close>;
  the keys are the displays of the taskbars found, each once.
\<close>

theorem RefreshHandles_rebuilds_the_map:
  "taskbars (snd (RefreshHandles cfg sys (r\<lparr>taskbars := ts\<rparr>)))
     = taskbars (snd (RefreshHandles cfg sys r))
   \<and> main_taskbar (snd (RefreshHandles cfg sys r)) = shell_tray sys
   \<and> (\<forall>m w s. (m, (w, s)) \<in> set (taskbars (snd (RefreshHandles cfg sys r))) \<longrightarrow>
         s = Normal \<and> m = monitor sys w
         \<and> (w = shell_tray sys \<or> w \<in> set (secondary_trays sys)))
   \<and> fst ` set (taskbars (snd (RefreshHandles cfg sys r)))
       = insert (monitor sys (shell_tray sys)) (monitor sys ` set (secondary_trays sys))
   \<and> distinct (map fst (taskbars (snd (RefreshHandles cfg sys r))))"
proof -
  let ?ts = "taskbars (snd (RefreshHandles cfg sys r))"
  have eq: "?ts = foldl (\<lambda>ts w. AList.update (monitor sys w) (w, Normal) ts)
                    [(monitor sys (shell_tray sys), (shell_tray sys, Normal))]
                    (secondary_trays sys)"
    by (simp add: RefreshHandles_def Let_def)
  have "taskbars (snd (RefreshHandles cfg sys (r\<lparr>taskbars := ts\<rparr>))) = ?ts"
    by (simp add: RefreshHandles_def Let_def)
  moreover have "main_taskbar (snd (RefreshHandles cfg sys r)) = shell_tray sys"
    by (simp add: RefreshHandles_def Let_def)
  moreover have "\<forall>m w s. (m, (w, s)) \<in> set ?ts \<longrightarrow>
         s = Normal \<and> m = monitor sys w
         \<and> (w = shell_tray sys \<or> w \<in> set (secondary_trays sys))"
    unfolding eq by (auto dest!: foldl_update_entries)
  moreover have "fst ` set ?ts
       = insert (monitor sys (shell_tray sys)) (monitor sys ` set (secondary_trays sys))"
    unfolding eq by (simp add: foldl_update_keys)
  moreover have "distinct (map fst ?ts)"
    unfolding eq by (rule foldl_update_distinct) simp
  ultimately show ?thesis by blast
qed

theorem RefreshHandles_rebuilds_the_map_witness:
  "taskbars (snd (RefreshHandles demo_cfg demo_os
                    (initial_run\<lparr>taskbars := [(7, (8, StartMenuOpen))]\<rparr>)))
     = [(1, (10, Normal)), (2, (11, Normal))]
   \<and> (2, (11, Normal))
       \<in> set (taskbars (snd (RefreshHandles demo_cfg demo_os
                               (initial_run\<lparr>taskbars := [(7, (8, StartMenuOpen))]\<rparr>))))
   \<and> 11 \<in> set (secondary_trays demo_os) \<and> monitor demo_os 11 = 2"
proof -
  have e: "taskbars (snd (RefreshHandles demo_cfg demo_os initial_run))
             = [(1, (10, Normal)), (2, (11, Normal))]"
    by (simp add: RefreshHandles_def Let_def demo_os_def)
  have t: "11 \<in> set (secondary_trays demo_os)" "monitor demo_os 11 = 2"
    by (simp_all add: demo_os_def)
  from RefreshHandles_rebuilds_the_map
         [where cfg = demo_cfg and sys = demo_os and r = initial_run
            and ts = "[(7, (8, StartMenuOpen))]"] e t
  show ?thesis by simp
qed

section \<open>The reconciliation pass\<close>

subsection \<open>The map of the taskbars\<close>

lemma surfaces_reset_states: "surfaces (reset_states ts) = surfaces ts"
  by (simp add: surfaces_def reset_states_def comp_def)

lemma reset_states_by_surfaces:
  "reset_states ts = map (\<lambda>e. (fst e, (snd e, Normal))) (surfaces ts)"
  by (simp add: surfaces_def reset_states_def comp_def)

lemma reset_states_cong: "surfaces ts = surfaces ts' \<Longrightarrow> reset_states ts = reset_states ts'"
  by (simp add: reset_states_by_surfaces)

lemma surfaces_update:
  "map_of ts k = Some (w, s) \<Longrightarrow> surfaces (AList.update k (w, s') ts) = surfaces ts"
  by (induction ts) (auto simp: surfaces_def split: if_splits)

lemma map_of_reset_states:
  "map_of (reset_states ts) m = map_option (\<lambda>e. (fst e, Normal)) (map_of ts m)"
  by (induction ts) (auto simp: reset_states_def)

lemma keys_of_surfaces: "fst ` set (surfaces ts) = fst ` set ts"
  by (force simp: surfaces_def)

lemma map_of_None_surfaces: "map_of ts k = None \<longleftrightarrow> k \<notin> fst ` set (surfaces ts)"
  by (simp add: keys_of_surfaces map_of_eq_None_iff)

subsection \<open>The visitor and the enumeration\<close>

lemma EnumWindowsProcess_surfaces:
  "EnumWindowsProcess cfg sys w r = Some (Inr r') \<Longrightarrow>
     surfaces (taskbars r') = surfaces (taskbars r) \<and> main_taskbar r' = main_taskbar r
     \<and> peek_active r' = peek_active r \<and> exit_reason r' = exit_reason r"
  by (auto simp: EnumWindowsProcess_def Let_def surfaces_update
        split: if_splits option.splits)

lemma EnumWindows_surfaces:
  "EnumWindows cfg sys ws r = Some (Inr r') \<Longrightarrow>
     surfaces (taskbars r') = surfaces (taskbars r) \<and> main_taskbar r' = main_taskbar r
     \<and> peek_active r' = peek_active r \<and> exit_reason r' = exit_reason r"
proof (induction ws arbitrary: r)
  case Nil
  then show ?case by simp
next
  case (Cons w ws)
  from Cons.prems obtain r1 where
    1: "EnumWindowsProcess cfg sys w r = Some (Inr r1)" and
    2: "EnumWindows cfg sys ws r1 = Some (Inr r')"
    by (auto split: option.splits sum.splits)
  from EnumWindowsProcess_surfaces [OF 1] Cons.IH [OF 2] show ?case by simp
qed

lemma EnumWindowsProcess_states:
  assumes "EnumWindowsProcess cfg sys w r = Some (Inr r')"
    and "\<forall>m x s. map_of (taskbars r) m = Some (x, s) \<longrightarrow>
           s = Normal \<or> s = WindowMaximised \<and> DYNAMIC_WS cfg \<and> maximised_seen sys ws m"
    and "w \<in> set ws"
  shows "\<forall>m x s. map_of (taskbars r') m = Some (x, s) \<longrightarrow>
           s = Normal \<or> s = WindowMaximised \<and> DYNAMIC_WS cfg \<and> maximised_seen sys ws m"
proof (cases "counts_as_maximised sys w")
  case True
  then have seen: "maximised_seen sys ws (monitor sys w)"
    using assms(3) by (auto simp: maximised_seen_def list_ex_iff)
  from True assms(1) obtain tb where
    tb: "map_of (taskbars r) (monitor sys w) = Some tb"
    by (auto simp: EnumWindowsProcess_def counts_as_maximised_def split: option.splits)
  show ?thesis
  proof (cases "DYNAMIC_WS cfg")
    case ws: True
    from True assms(1) tb ws have
      "taskbars r' = AList.update (monitor sys w) (fst tb, WindowMaximised) (taskbars r)"
      by (auto simp: EnumWindowsProcess_def counts_as_maximised_def Let_def split: if_splits)
    with assms(2) seen ws show ?thesis
      by (auto simp: update_conv' split: if_splits)
  next
    case False
    from True assms(1) tb False have "taskbars r' = taskbars r"
      by (auto simp: EnumWindowsProcess_def counts_as_maximised_def Let_def split: if_splits)
    with assms(2) show ?thesis by simp
  qed
next
  case False
  with assms(1) have "taskbars r' = taskbars r"
    by (auto simp: EnumWindowsProcess_def counts_as_maximised_def Let_def
          split: if_splits option.splits)
  with assms(2) show ?thesis by simp
qed

lemma EnumWindows_states:
  assumes "EnumWindows cfg sys ws' r = Some (Inr r')"
    and "\<forall>m x s. map_of (taskbars r) m = Some (x, s) \<longrightarrow>
           s = Normal \<or> s = WindowMaximised \<and> DYNAMIC_WS cfg \<and> maximised_seen sys ws m"
    and "set ws' \<subseteq> set ws"
  shows "\<forall>m x s. map_of (taskbars r') m = Some (x, s) \<longrightarrow>
           s = Normal \<or> s = WindowMaximised \<and> DYNAMIC_WS cfg \<and> maximised_seen sys ws m"
  using assms
proof (induction ws' arbitrary: r)
  case Nil
  then show ?case by simp
next
  case (Cons w ws')
  from Cons.prems(1) obtain r1 where
    1: "EnumWindowsProcess cfg sys w r = Some (Inr r1)" and
    2: "EnumWindows cfg sys ws' r1 = Some (Inr r')"
    by (auto split: option.splits sum.splits)
  from Cons.prems(3) have w: "w \<in> set ws" and sub: "set ws' \<subseteq> set ws" by auto
  from EnumWindowsProcess_states [OF 1 Cons.prems(2) w]
  have "\<forall>m x s. map_of (taskbars r1) m = Some (x, s) \<longrightarrow>
           s = Normal \<or> s = WindowMaximised \<and> DYNAMIC_WS cfg \<and> maximised_seen sys ws m" .
  from Cons.IH [OF 2 this sub] show ?case .
qed


subsection \<open>The pass\<close>

lemma mark_start_menu_states:
  assumes "mark_start_menu cfg sys r = Inr r5"
  shows "surfaces (taskbars r5) = surfaces (taskbars r) \<and> peek_active r5 = peek_active r
     \<and> main_taskbar r5 = main_taskbar r \<and> should_show_peek r5 = should_show_peek r
     \<and> exit_reason r5 = exit_reason r
     \<and> (\<forall>m x s. map_of (taskbars r5) m = Some (x, s) \<longrightarrow>
           s = StartMenuOpen \<and> hosts_start_menu cfg sys m \<or> map_of (taskbars r) m = Some (x, s))"
  using assms
  by (auto simp: mark_start_menu_def hosts_start_menu_def surfaces_update update_conv'
        split: if_splits option.splits)

lemma reconciliation_pass_steps:
  assumes "reconciliation_pass cfg sys r st = Some (Inr (calls, r', st'))"
  obtains r3 r5 where
    "if enumerates cfg
     then EnumWindows cfg sys (top_level_windows sys)
            (r\<lparr>should_show_peek := (PEEK cfg = Enabled),
               taskbars := reset_states (taskbars r)\<rparr>) = Some (Inr r3)
     else r3 = r\<lparr>should_show_peek := (PEEK cfg = Enabled),
                  taskbars := reset_states (taskbars r)\<rparr>"
    "mark_start_menu cfg sys r3 = Inr r5"
    "r' = (if DYNAMIC_WS cfg \<and> DYNAMIC_REGULAR_ON_PEEK cfg \<and> peek_active r5
           then r5\<lparr>taskbars := reset_states (taskbars r5)\<rparr> else r5)"
    "calls = (if enumerates cfg then [EnumWindowsCall] else [])
              @ fst (TogglePeek sys r3 (should_show_peek r3)
                       (if enumerates cfg then st\<lparr>counter := 0\<rparr> else st))"
    "st' = (snd (TogglePeek sys r3 (should_show_peek r3)
                   (if enumerates cfg then st\<lparr>counter := 0\<rparr> else st)))\<lparr>counter := 0\<rparr>"
  using assms
  by (auto simp: reconciliation_pass_def Let_def
        split: if_splits option.splits sum.splits prod.splits)

lemma reconciliation_pass_states:
  assumes "reconciliation_pass cfg sys r st = Some (Inr (calls, r', st'))"
  shows "surfaces (taskbars r') = surfaces (taskbars r)
     \<and> (\<forall>m w s. map_of (taskbars r') m = Some (w, s) \<longrightarrow>
          (\<not> maximised_seen sys (top_level_windows sys) m \<and> \<not> hosts_start_menu cfg sys m
             \<longrightarrow> s = Normal)
          \<and> (s = WindowMaximised \<longrightarrow>
               DYNAMIC_WS cfg \<and> maximised_seen sys (top_level_windows sys) m)
          \<and> (s = StartMenuOpen \<longrightarrow> hosts_start_menu cfg sys m))"
proof -
  let ?r2 = "r\<lparr>should_show_peek := (PEEK cfg = Enabled),
               taskbars := reset_states (taskbars r)\<rparr>"
  from assms obtain r3 r5 where
    enum: "if enumerates cfg
           then EnumWindows cfg sys (top_level_windows sys) ?r2 = Some (Inr r3)
           else r3 = ?r2" and
    start: "mark_start_menu cfg sys r3 = Inr r5" and
    r': "r' = (if DYNAMIC_WS cfg \<and> DYNAMIC_REGULAR_ON_PEEK cfg \<and> peek_active r5
               then r5\<lparr>taskbars := reset_states (taskbars r5)\<rparr> else r5)"
    by (rule reconciliation_pass_steps)
  have init: "\<forall>m x s. map_of (taskbars ?r2) m = Some (x, s) \<longrightarrow>
           s = Normal \<or> s = WindowMaximised \<and> DYNAMIC_WS cfg
                         \<and> maximised_seen sys (top_level_windows sys) m"
    by (auto simp: map_of_reset_states)
  have s3: "surfaces (taskbars r3) = surfaces (taskbars r)"
    using enum EnumWindows_surfaces [of cfg sys "top_level_windows sys" ?r2 r3]
    by (auto simp: surfaces_reset_states split: if_splits)
  have j3: "\<forall>m x s. map_of (taskbars r3) m = Some (x, s) \<longrightarrow>
           s = Normal \<or> s = WindowMaximised \<and> DYNAMIC_WS cfg
                         \<and> maximised_seen sys (top_level_windows sys) m"
  proof (cases "enumerates cfg")
    case True
    with enum have "EnumWindows cfg sys (top_level_windows sys) ?r2 = Some (Inr r3)" by simp
    from EnumWindows_states [OF this init subset_refl] show ?thesis .
  next
    case False
    with enum init show ?thesis by simp
  qed
  note m5 = mark_start_menu_states [OF start]
  have j5: "\<forall>m x s. map_of (taskbars r5) m = Some (x, s) \<longrightarrow>
           s = Normal
           \<or> s = WindowMaximised \<and> DYNAMIC_WS cfg
               \<and> maximised_seen sys (top_level_windows sys) m
           \<or> s = StartMenuOpen \<and> hosts_start_menu cfg sys m"
    using m5 j3 by blast
  have j': "\<forall>m x s. map_of (taskbars r') m = Some (x, s) \<longrightarrow>
           s = Normal
           \<or> s = WindowMaximised \<and> DYNAMIC_WS cfg
               \<and> maximised_seen sys (top_level_windows sys) m
           \<or> s = StartMenuOpen \<and> hosts_start_menu cfg sys m"
  proof (cases "DYNAMIC_WS cfg \<and> DYNAMIC_REGULAR_ON_PEEK cfg \<and> peek_active r5")
    case True
    with r' have "taskbars r' = reset_states (taskbars r5)" by simp
    then show ?thesis by (auto simp: map_of_reset_states)
  next
    case False
    with r' j5 show ?thesis by simp
  qed
  have s': "surfaces (taskbars r') = surfaces (taskbars r)"
    using r' m5 s3 by (auto simp: surfaces_reset_states)
  have "\<forall>m w s. map_of (taskbars r') m = Some (w, s) \<longrightarrow>
          (\<not> maximised_seen sys (top_level_windows sys) m \<and> \<not> hosts_start_menu cfg sys m
             \<longrightarrow> s = Normal)
          \<and> (s = WindowMaximised \<longrightarrow>
               DYNAMIC_WS cfg \<and> maximised_seen sys (top_level_windows sys) m)
          \<and> (s = StartMenuOpen \<longrightarrow> hosts_start_menu cfg sys m)"
    using j' by (metis MONITORSTATE.distinct(1,3,5))
  with s' show ?thesis by blast
qed

text \<open>
  C1. A pass that ends gives the same result whatever states the displays had before it
  (it starts by setting every state to \<open>Normal\<close>), and it keeps the displays and their
  taskbars. When it ends, a display for which the enumeration saw no maximised window on
  the current desktop and which does not host the open Start menu has the state
  \<open>Normal\<close>; a display has \<open>WindowMaximised\<close> only if such a window was seen on it (and
  \<open>DYNAMIC_WS\<close> is on), and \<open>StartMenuOpen\<close> only if it hosts the open Start menu.
\<close>

theorem pass_leaves_unobserved_displays_normal:
  assumes "reconciliation_pass cfg sys r st = Some (Inr (calls, r', st'))"
  shows "(\<forall>ts. surfaces ts = surfaces (taskbars r) \<longrightarrow>
            reconciliation_pass cfg sys (r\<lparr>taskbars := ts\<rparr>) st = Some (Inr (calls, r', st')))
     \<and> surfaces (taskbars r') = surfaces (taskbars r)
     \<and> (\<forall>m w s. map_of (taskbars r') m = Some (w, s) \<longrightarrow>
          (\<not> maximised_seen sys (top_level_windows sys) m \<and> \<not> hosts_start_menu cfg sys m
             \<longrightarrow> s = Normal)
          \<and> (s = WindowMaximised \<longrightarrow>
               DYNAMIC_WS cfg \<and> maximised_seen sys (top_level_windows sys) m)
          \<and> (s = StartMenuOpen \<longrightarrow> hosts_start_menu cfg sys m))"
proof -
  have indep: "\<forall>ts. surfaces ts = surfaces (taskbars r) \<longrightarrow>
            reconciliation_pass cfg sys (r\<lparr>taskbars := ts\<rparr>) st = Some (Inr (calls, r', st'))"
  proof (intro allI impI)
    fix ts assume "surfaces ts = surfaces (taskbars r)"
    then have "reset_states ts = reset_states (taskbars r)" by (rule reset_states_cong)
    then have "reconciliation_pass cfg sys (r\<lparr>taskbars := ts\<rparr>) st
                 = reconciliation_pass cfg sys r st"
      by (simp add: reconciliation_pass_def Let_def)
    with assms show "reconciliation_pass cfg sys (r\<lparr>taskbars := ts\<rparr>) st
                       = Some (Inr (calls, r', st'))" by simp
  qed
  from reconciliation_pass_states [OF assms] indep show ?thesis by blast
qed

subsection \<open>The pass on the example systems\<close>

lemma demo_run_value:
  "demo_run = \<lparr>exit_reason = UserAction, main_taskbar = 10,
      taskbars = [(1, (10, Normal)), (2, (11, Normal))],
      should_show_peek = True, is_running = True, config_folder = [],
      config_file = [], exclude_file = [], peek_active = False\<rparr>"
  by (simp add: demo_run_def RefreshHandles_def Let_def demo_os_def initial_run_def NullWindow_def)

lemma demo_enum:
  "EnumWindows demo_cfg demo_os [20, 21]
     (demo_run\<lparr>should_show_peek := False, taskbars := [(1, (10, Normal)), (2, (11, Normal))]\<rparr>)
   = Some (Inr (demo_run\<lparr>should_show_peek := True,
                  taskbars := [(1, (10, WindowMaximised)), (2, (11, Normal))]\<rparr>))"
  by (simp add: demo_run_value EnumWindowsProcess_def demo_cfg_def demo_os_def
        SW_MAXIMIZE_def SW_SHOWMINIMIZED_def Let_def)

lemma demo_pass:
  "reconciliation_pass demo_cfg demo_os demo_run initial_statics
     = Some (Inr ([EnumWindowsCall],
                  demo_run\<lparr>should_show_peek := True,
                    taskbars := [(1, (10, WindowMaximised)), (2, (11, Normal))]\<rparr>,
                  initial_statics\<lparr>cached_taskbar := Some 10, counter := 0\<rparr>))"
  by (simp add: reconciliation_pass_def Let_def enumerates_def demo_run_value
        EnumWindowsProcess_def demo_cfg_def demo_os_def SW_MAXIMIZE_def SW_SHOWMINIMIZED_def
        mark_start_menu_def TogglePeek_def initial_statics_def reset_states_def)

lemma hotplug_tick:
  "SetTaskbarBlur demo_cfg hotplug_os demo_run initial_statics = Some (Inl out_of_range)"
  by (simp add: SetTaskbarBlur_def reconciliation_pass_def Let_def enumerates_def demo_run_value
        EnumWindowsProcess_def demo_cfg_def demo_os_def hotplug_os_def SW_MAXIMIZE_def SW_SHOWMINIMIZED_def
        mark_start_menu_def TogglePeek_def initial_statics_def reset_states_def)



theorem pass_leaves_unobserved_displays_normal_witness:
  "reconciliation_pass demo_cfg demo_os demo_run initial_statics
     = Some (Inr ([EnumWindowsCall],
                  demo_run\<lparr>should_show_peek := True,
                    taskbars := [(1, (10, WindowMaximised)), (2, (11, Normal))]\<rparr>,
                  initial_statics\<lparr>cached_taskbar := Some 10, counter := 0\<rparr>))
   \<and> \<not> maximised_seen demo_os (top_level_windows demo_os) 2
   \<and> \<not> hosts_start_menu demo_cfg demo_os 2
   \<and> maximised_seen demo_os (top_level_windows demo_os) 1
   \<and> surfaces [(1, (10, StartMenuOpen)), (2, (11, WindowMaximised))] = surfaces (taskbars demo_run)
   \<and> reconciliation_pass demo_cfg demo_os
        (demo_run\<lparr>taskbars := [(1, (10, StartMenuOpen)), (2, (11, WindowMaximised))]\<rparr>)
        initial_statics
     = Some (Inr ([EnumWindowsCall],
                  demo_run\<lparr>should_show_peek := True,
                    taskbars := [(1, (10, WindowMaximised)), (2, (11, Normal))]\<rparr>,
                  initial_statics\<lparr>cached_taskbar := Some 10, counter := 0\<rparr>))"
proof -
  have s2: "\<not> maximised_seen demo_os (top_level_windows demo_os) 2"
    by (simp add: maximised_seen_def counts_as_maximised_def demo_os_def SW_MAXIMIZE_def)
  have h2: "\<not> hosts_start_menu demo_cfg demo_os 2"
    by (simp add: hosts_start_menu_def demo_cfg_def)
  have s1: "maximised_seen demo_os (top_level_windows demo_os) 1"
    by (simp add: maximised_seen_def counts_as_maximised_def demo_os_def SW_MAXIMIZE_def)
  have su: "surfaces [(1, (10, StartMenuOpen)), (2, (11, WindowMaximised))]
              = surfaces (taskbars demo_run)"
    by (simp add: surfaces_def demo_run_value)
  from pass_leaves_unobserved_displays_normal [OF demo_pass] su
  have "reconciliation_pass demo_cfg demo_os
        (demo_run\<lparr>taskbars := [(1, (10, StartMenuOpen)), (2, (11, WindowMaximised))]\<rparr>)
        initial_statics
     = Some (Inr ([EnumWindowsCall],
                  demo_run\<lparr>should_show_peek := True,
                    taskbars := [(1, (10, WindowMaximised)), (2, (11, Normal))]\<rparr>,
                  initial_statics\<lparr>cached_taskbar := Some 10, counter := 0\<rparr>))"
    by blast
  with demo_pass s2 h2 s1 su show ?thesis by simp
qed

section \<open>A display without an entry\<close>

lemma EnumWindowsProcess_missing_display:
  "counts_as_maximised sys w \<Longrightarrow> map_of (taskbars r) (monitor sys w) = None \<Longrightarrow>
     EnumWindowsProcess cfg sys w r = Some (Inl out_of_range)"
  by (simp add: EnumWindowsProcess_def counts_as_maximised_def)

lemma EnumWindowsProcess_no_lookup:
  "\<not> counts_as_maximised sys w \<Longrightarrow> EnumWindowsProcess cfg sys w r \<noteq> Some (Inl e)"
  by (auto simp: EnumWindowsProcess_def counts_as_maximised_def split: option.splits)

lemma EnumWindows_needs_every_display:
  assumes "EnumWindows cfg sys ws r = Some (Inr r')" "w \<in> set ws" "counts_as_maximised sys w"
  shows "map_of (taskbars r) (monitor sys w) \<noteq> None"
  using assms
proof (induction ws arbitrary: r)
  case Nil
  then show ?case by simp
next
  case (Cons v ws)
  from Cons.prems(1) obtain r1 where
    1: "EnumWindowsProcess cfg sys v r = Some (Inr r1)" and
    2: "EnumWindows cfg sys ws r1 = Some (Inr r')"
    by (auto split: option.splits sum.splits)
  show ?case
  proof (cases "v = w")
    case True
    show ?thesis
    proof
      assume "map_of (taskbars r) (monitor sys w) = None"
      from EnumWindowsProcess_missing_display [OF Cons.prems(3) this, of cfg] 1 True
      show False by simp
    qed
  next
    case False
    with Cons.prems(2) have "w \<in> set ws" by simp
    from Cons.IH [OF 2 this Cons.prems(3)]
    have "map_of (taskbars r1) (monitor sys w) \<noteq> None" .
    with EnumWindowsProcess_surfaces [OF 1] show ?thesis
      by (simp add: map_of_None_surfaces)
  qed
qed

text \<open>
  C4, as stated, fails: window 22 is maximised on display 3, which has no entry in the
  map. The visitor ends with \<open>out_of_range\<close>, and so do the enumeration (window 20 after
  it is never visited) and the whole tick.
\<close>

theorem missing_display_is_not_skipped:
  "counts_as_maximised hotplug_os 22
   \<and> map_of (taskbars demo_run) (monitor hotplug_os 22) = None
   \<and> EnumWindowsProcess demo_cfg hotplug_os 22 demo_run = Some (Inl out_of_range)
   \<and> EnumWindows demo_cfg hotplug_os [22, 20] demo_run = Some (Inl out_of_range)
   \<and> SetTaskbarBlur demo_cfg hotplug_os demo_run initial_statics = Some (Inl out_of_range)"
  by (simp add: hotplug_tick)
     (simp add: counts_as_maximised_def demo_run_value
        EnumWindowsProcess_def demo_cfg_def demo_os_def hotplug_os_def SW_MAXIMIZE_def)

text \<open>
  C4, amended. For a window that the visitor takes for maximised on the current desktop
  and whose display has no entry in the map, the lookup raises \<open>out_of_range\<close>; nothing
  catches it, so the enumeration ends there, whatever windows follow, and a tick that
  runs the enumeration over such a window does not return. A window that is not taken
  for maximised never does the lookup and never raises.
\<close>

theorem missing_display_raises_out_of_range:
  assumes "counts_as_maximised sys w" and "map_of (taskbars r) (monitor sys w) = None"
  shows "EnumWindowsProcess cfg sys w r = Some (Inl out_of_range)
     \<and> EnumWindows cfg sys (w # rest) r = Some (Inl out_of_range)
     \<and> (w \<in> set (top_level_windows sys) \<and> enumerates cfg \<and> 10 \<le> counter st \<longrightarrow>
          (\<forall>res. SetTaskbarBlur cfg sys r st \<noteq> Some (Inr res)))
     \<and> (\<not> counts_as_maximised sys w' \<longrightarrow>
          EnumWindowsProcess cfg sys w' r \<noteq> Some (Inl out_of_range))"
proof -
  have 1: "EnumWindowsProcess cfg sys w r = Some (Inl out_of_range)"
    using assms by (rule EnumWindowsProcess_missing_display)
  then have 2: "EnumWindows cfg sys (w # rest) r = Some (Inl out_of_range)" by simp
  have 3: "\<forall>res. SetTaskbarBlur cfg sys r st \<noteq> Some (Inr res)"
    if w: "w \<in> set (top_level_windows sys)" and e: "enumerates cfg" and c: "10 \<le> counter st"
  proof (intro allI notI)
    fix res assume "SetTaskbarBlur cfg sys r st = Some (Inr res)"
    with c obtain calls1 r1 st1 where
      "reconciliation_pass cfg sys r st = Some (Inr (calls1, r1, st1))"
      by (auto simp: SetTaskbarBlur_def split: option.splits sum.splits prod.splits)
    then obtain r3 where
      "if enumerates cfg
       then EnumWindows cfg sys (top_level_windows sys)
              (r\<lparr>should_show_peek := (PEEK cfg = Enabled),
                 taskbars := reset_states (taskbars r)\<rparr>) = Some (Inr r3)
       else r3 = r\<lparr>should_show_peek := (PEEK cfg = Enabled),
                    taskbars := reset_states (taskbars r)\<rparr>"
      by (rule reconciliation_pass_steps)
    with e have "EnumWindows cfg sys (top_level_windows sys)
              (r\<lparr>should_show_peek := (PEEK cfg = Enabled),
                 taskbars := reset_states (taskbars r)\<rparr>) = Some (Inr r3)" by simp
    from EnumWindows_needs_every_display [OF this w assms(1)]
    have "map_of (reset_states (taskbars r)) (monitor sys w) \<noteq> None" by simp
    with assms(2) show False by (simp add: map_of_reset_states)
  qed
  have 4: "EnumWindowsProcess cfg sys w' r \<noteq> Some (Inl out_of_range)"
    if "\<not> counts_as_maximised sys w'"
    using that by (rule EnumWindowsProcess_no_lookup)
  from 1 2 3 4 show ?thesis by blast
qed

theorem missing_display_raises_out_of_range_witness:
  "counts_as_maximised hotplug_os 22
   \<and> map_of (taskbars demo_run) (monitor hotplug_os 22) = None
   \<and> 22 \<in> set (top_level_windows hotplug_os) \<and> enumerates demo_cfg
   \<and> 10 \<le> counter initial_statics
   \<and> EnumWindows demo_cfg hotplug_os (22 # [20]) demo_run = Some (Inl out_of_range)
   \<and> SetTaskbarBlur demo_cfg hotplug_os demo_run initial_statics
       \<noteq> Some (Inr ([], demo_run, initial_statics))
   \<and> \<not> counts_as_maximised hotplug_os 21
   \<and> EnumWindowsProcess demo_cfg hotplug_os 21 demo_run \<noteq> Some (Inl out_of_range)"
proof -
  have a: "counts_as_maximised hotplug_os 22"
    by (simp add: counts_as_maximised_def hotplug_os_def demo_os_def SW_MAXIMIZE_def)
  have b: "map_of (taskbars demo_run) (monitor hotplug_os 22) = None"
    by (simp add: demo_run_value hotplug_os_def demo_os_def)
  have c: "22 \<in> set (top_level_windows hotplug_os)" "enumerates demo_cfg"
    "10 \<le> counter initial_statics" "\<not> counts_as_maximised hotplug_os 21"
    by (simp_all add: hotplug_os_def enumerates_def demo_cfg_def initial_statics_def
          counts_as_maximised_def demo_os_def SW_MAXIMIZE_def)
  from missing_display_raises_out_of_range [OF a b, where cfg = demo_cfg and rest = "[20]" and st = initial_statics and w' = 21]
    a b c
  show ?thesis by simp
qed

section \<open>The end of the process\<close>

subsection \<open>The loop that restores the taskbars\<close>

lemma restore_taskbars_calls:
  "set (fst (restore_taskbars sys memo ts)) \<subseteq> SendThemeChanged ` (fst \<circ> snd) ` set ts"
proof (induction ts arbitrary: memo)
  case Nil
  then show ?case by simp
next
  case (Cons t ts)
  obtain c1 m1 where 1: "SetWindowBlur sys memo (fst (snd t)) ACCENT_NORMAL 0 = (c1, m1)"
    by (cases "SetWindowBlur sys memo (fst (snd t)) ACCENT_NORMAL 0")
  obtain c2 m2 where 2: "restore_taskbars sys m1 ts = (c2, m2)"
    by (cases "restore_taskbars sys m1 ts")
  from SetWindowBlur_normal_calls [of sys memo "fst (snd t)" 0] 1
  have "set c1 \<subseteq> {SendThemeChanged (fst (snd t))}" by simp
  moreover from Cons.IH [of m1] 2
  have "set c2 \<subseteq> SendThemeChanged ` (fst \<circ> snd) ` set ts" by simp
  ultimately show ?case using 1 2 by auto
qed

lemma restore_taskbars_keeps_true:
  "memo v = Some True \<Longrightarrow> snd (restore_taskbars sys memo ts) v = Some True"
proof (induction ts arbitrary: memo)
  case Nil
  then show ?case by simp
next
  case (Cons t ts)
  have "snd (SetWindowBlur sys memo (fst (snd t)) ACCENT_NORMAL 0) v = Some True"
    using Cons.prems by (rule SetWindowBlur_normal_keeps_true)
  then have "snd (restore_taskbars sys (snd (SetWindowBlur sys memo (fst (snd t)) ACCENT_NORMAL 0)) ts) v
               = Some True"
    by (rule Cons.IH)
  then show ?case
    by (simp split: prod.splits) (metis snd_conv)
qed

lemma restore_taskbars_memo:
  "swca_available sys \<Longrightarrow> (m, (w, s)) \<in> set ts \<Longrightarrow>
     snd (restore_taskbars sys memo ts) w = Some True"
proof (induction ts arbitrary: memo)
  case Nil
  then show ?case by simp
next
  case (Cons t ts)
  show ?case
  proof (cases "t = (m, (w, s))")
    case True
    from SetWindowBlur_normal_memo [OF Cons.prems(1), of memo w 0]
    have "snd (SetWindowBlur sys memo w ACCENT_NORMAL 0) w = Some True" .
    then have "snd (restore_taskbars sys (snd (SetWindowBlur sys memo w ACCENT_NORMAL 0)) ts) w
                 = Some True"
      by (rule restore_taskbars_keeps_true)
    with True show ?thesis
      by (simp split: prod.splits) (metis snd_conv)
  next
    case False
    with Cons.prems(2) have "(m, (w, s)) \<in> set ts" by simp
    with Cons.prems(1)
    have "snd (restore_taskbars sys (snd (SetWindowBlur sys memo (fst (snd t)) ACCENT_NORMAL 0)) ts) w
            = Some True"
      by (rule Cons.IH)
    then show ?thesis
      by (simp split: prod.splits) (metis snd_conv)
  qed
qed

lemma restore_taskbars_sends:
  "swca_available sys \<Longrightarrow> (m, (w, s)) \<in> set ts \<Longrightarrow> memo w \<noteq> Some True \<Longrightarrow>
     SendThemeChanged w \<in> set (fst (restore_taskbars sys memo ts))"
proof (induction ts arbitrary: memo)
  case Nil
  then show ?case by simp
next
  case (Cons t ts)
  obtain c1 m1 where 1: "SetWindowBlur sys memo (fst (snd t)) ACCENT_NORMAL 0 = (c1, m1)"
    by (cases "SetWindowBlur sys memo (fst (snd t)) ACCENT_NORMAL 0")
  obtain c2 m2 where 2: "restore_taskbars sys m1 ts = (c2, m2)"
    by (cases "restore_taskbars sys m1 ts")
  show ?case
  proof (cases "fst (snd t) = w")
    case True
    have "fst (SetWindowBlur sys memo w ACCENT_NORMAL 0) = [SendThemeChanged w]"
      using Cons.prems(1,3) by (rule SetWindowBlur_normal_sends)
    with True 1 have "c1 = [SendThemeChanged w]" by simp
    with 1 2 show ?thesis by simp
  next
    case False
    with Cons.prems(2) have in_ts: "(m, (w, s)) \<in> set ts" by auto
    from False SetWindowBlur_other_memo [of w "fst (snd t)" sys memo ACCENT_NORMAL 0] 1
    have "m1 w = memo w" by simp
    with Cons.prems(3) have "m1 w \<noteq> Some True" by simp
    with Cons.prems(1) in_ts
    have "SendThemeChanged w \<in> set (fst (restore_taskbars sys m1 ts))" by (rule Cons.IH)
    with 2 have "SendThemeChanged w \<in> set c2" by simp
    with 1 2 show ?thesis by simp
  qed
qed

subsection \<open>What one call of \<open>TogglePeek\<close> leaves\<close>

lemma TogglePeek_cached_peek: "cached_peek (snd (TogglePeek sys r status st)) = status"
  by (auto simp: TogglePeek_def Let_def split: option.splits)

lemma TogglePeek_others:
  "is_normal (snd (TogglePeek sys r status st)) = is_normal st
   \<and> counter (snd (TogglePeek sys r status st)) = counter st"
  by (auto simp: TogglePeek_def Let_def split: option.splits)

lemma TogglePeek_calls:
  "set (fst (TogglePeek sys r status st))
     \<subseteq> {SetLayered (peek_button sys (main_taskbar r)),
         SetLayeredAlphaZero (peek_button sys (main_taskbar r)),
         ClearLayered (peek_button sys (main_taskbar r))}"
  by (auto simp: TogglePeek_def Let_def split: option.splits)

lemma TogglePeek_shows:
  "\<not> cached_peek st \<Longrightarrow>
     fst (TogglePeek sys r True st) = [ClearLayered (peek_button sys (main_taskbar r))]"
  by (auto simp: TogglePeek_def Let_def split: option.splits)

subsection \<open>The exit sequence\<close>

lemma restore_taskbars_without_entry_point:
  "\<not> swca_available sys \<Longrightarrow> restore_taskbars sys memo ts = ([], memo)"
  by (induction ts) (simp_all add: SetWindowBlur_without_entry_point)

lemma restore_taskbars_sends_only:
  "SendThemeChanged w \<in> set (fst (restore_taskbars sys memo ts)) \<Longrightarrow>
     swca_available sys \<and> memo w \<noteq> Some True"
proof (induction ts arbitrary: memo)
  case Nil
  then show ?case by simp
next
  case (Cons t ts)
  obtain c1 m1 where 1: "SetWindowBlur sys memo (fst (snd t)) ACCENT_NORMAL 0 = (c1, m1)"
    by (cases "SetWindowBlur sys memo (fst (snd t)) ACCENT_NORMAL 0")
  obtain c2 m2 where 2: "restore_taskbars sys m1 ts = (c2, m2)"
    by (cases "restore_taskbars sys m1 ts")
  from Cons.prems 1 2 have "SendThemeChanged w \<in> set c1 \<or> SendThemeChanged w \<in> set c2"
    by simp
  then show ?case
  proof
    assume "SendThemeChanged w \<in> set c1"
    with 1 show ?thesis
      by (auto simp: SetWindowBlur_def initial_policy_def Let_def split: if_splits)
  next
    assume "SendThemeChanged w \<in> set c2"
    with 2 have "SendThemeChanged w \<in> set (fst (restore_taskbars sys m1 ts))" by simp
    then have i: "swca_available sys \<and> m1 w \<noteq> Some True" by (rule Cons.IH)
    have "memo w \<noteq> Some True"
    proof
      assume "memo w = Some True"
      then have "snd (SetWindowBlur sys memo (fst (snd t)) ACCENT_NORMAL 0) w = Some True"
        by (rule SetWindowBlur_normal_keeps_true)
      with 1 i show False by simp
    qed
    with i show ?thesis by simp
  qed
qed

text \<open>
  C8, as stated, fails where the entry point is missing: the process ends for an
  ordinary exit with two taskbars in the map, and nothing is sent to either of them.
\<close>

theorem exit_without_entry_point_resets_nothing:
  "exit_reason demo_run \<noteq> NewInstance
   \<and> taskbars demo_run = [(1, (10, Normal)), (2, (11, Normal))]
   \<and> exit_sequence legacy_os demo_run initial_statics
       = ([ConfigSave []], initial_statics\<lparr>cached_taskbar := Some 10\<rparr>)
   \<and> is_normal (snd (exit_sequence legacy_os demo_run initial_statics)) 10 = None"
  by (simp add: exit_sequence_def Let_def demo_run_value TogglePeek_def SetWindowBlur_def
        legacy_os_def demo_os_def initial_statics_def)

text \<open>
  C8, amended. After the loop, a process told to leave by a new instance does nothing:
  no call, and the statics stay. For any other reason the configuration is saved exactly
  when the reason is not \<open>UserActionNoSave\<close>; the peek button is shown (the cached status
  is true afterwards, and the layered style is cleared if the button was hidden); no
  compositing call is made; the theme-changed message goes only to taskbars of the map
  whose memo was not at normal, and only with the entry point available. With the entry
  point available every taskbar of the map ends with its memo at normal, the message
  being sent to each one that was not already there; without it the memo stays as it
  was and no taskbar is reset.
\<close>

theorem exit_restores_unless_new_instance:
  "(exit_reason r = NewInstance \<longrightarrow> exit_sequence sys r st = ([], st))
   \<and> (exit_reason r \<noteq> NewInstance \<longrightarrow>
        (\<forall>file. ConfigSave file \<in> set (fst (exit_sequence sys r st))
             \<longleftrightarrow> exit_reason r \<noteq> UserActionNoSave \<and> file = config_file r)
      \<and> cached_peek (snd (exit_sequence sys r st))
      \<and> (\<not> cached_peek st \<longrightarrow>
           ClearLayered (peek_button sys (main_taskbar r)) \<in> set (fst (exit_sequence sys r st)))
      \<and> (\<forall>w p. SetWindowCompositionAttribute w p \<notin> set (fst (exit_sequence sys r st)))
      \<and> (\<forall>w. SendThemeChanged w \<in> set (fst (exit_sequence sys r st)) \<longrightarrow>
             swca_available sys \<and> is_normal st w \<noteq> Some True
             \<and> w \<in> (fst \<circ> snd) ` set (taskbars r))
      \<and> (swca_available sys \<longrightarrow>
           (\<forall>m w s. (m, (w, s)) \<in> set (taskbars r) \<longrightarrow>
              is_normal (snd (exit_sequence sys r st)) w = Some True
              \<and> (is_normal st w \<noteq> Some True \<longrightarrow>
                   SendThemeChanged w \<in> set (fst (exit_sequence sys r st)))))
      \<and> (\<not> swca_available sys \<longrightarrow>
           is_normal (snd (exit_sequence sys r st)) = is_normal st))"
proof -
  obtain c1 st1 where tp: "TogglePeek sys r True st = (c1, st1)"
    by (cases "TogglePeek sys r True st")
  obtain c2 memo where rt: "restore_taskbars sys (is_normal st1) (taskbars r) = (c2, memo)"
    by (cases "restore_taskbars sys (is_normal st1) (taskbars r)")
  from tp TogglePeek_cached_peek [of sys r True st] TogglePeek_others [of sys r True st]
  have st1: "cached_peek st1" "is_normal st1 = is_normal st" by simp_all
  from tp TogglePeek_calls [of sys r True st] have c1: "set c1 \<subseteq>
         {SetLayered (peek_button sys (main_taskbar r)),
          SetLayeredAlphaZero (peek_button sys (main_taskbar r)),
          ClearLayered (peek_button sys (main_taskbar r))}" by simp
  from rt restore_taskbars_calls [of sys "is_normal st1" "taskbars r"]
  have c2: "set c2 \<subseteq> SendThemeChanged ` (fst \<circ> snd) ` set (taskbars r)" by simp
  have ex: "exit_sequence sys r st =
          ((if exit_reason r \<noteq> UserActionNoSave then [ConfigSave (config_file r)] else [])
             @ c1 @ c2, st1\<lparr>is_normal := memo\<rparr>)"
    if "exit_reason r \<noteq> NewInstance"
    using that tp rt by (simp add: exit_sequence_def Let_def)
  have A: "exit_reason r = NewInstance \<longrightarrow> exit_sequence sys r st = ([], st)"
    by (simp add: exit_sequence_def)
  have B: "\<forall>file. ConfigSave file \<in> set (fst (exit_sequence sys r st))
             \<longleftrightarrow> exit_reason r \<noteq> UserActionNoSave \<and> file = config_file r"
    if n: "exit_reason r \<noteq> NewInstance"
    using ex [OF n] c1 c2 by auto
  have C: "cached_peek (snd (exit_sequence sys r st))" if n: "exit_reason r \<noteq> NewInstance"
    using ex [OF n] st1 by simp
  have D: "ClearLayered (peek_button sys (main_taskbar r)) \<in> set (fst (exit_sequence sys r st))"
    if n: "exit_reason r \<noteq> NewInstance" and h: "\<not> cached_peek st"
    using ex [OF n] tp TogglePeek_shows [OF h, of sys r] by simp
  have E: "\<forall>w p. SetWindowCompositionAttribute w p \<notin> set (fst (exit_sequence sys r st))"
    if n: "exit_reason r \<noteq> NewInstance"
    using ex [OF n] c1 c2 by auto
  have F: "\<forall>m w s. (m, (w, s)) \<in> set (taskbars r) \<longrightarrow>
              is_normal (snd (exit_sequence sys r st)) w = Some True
              \<and> (is_normal st w \<noteq> Some True \<longrightarrow>
                   SendThemeChanged w \<in> set (fst (exit_sequence sys r st)))"
    if n: "exit_reason r \<noteq> NewInstance" and a: "swca_available sys"
  proof (intro allI impI conjI)
    fix m w s assume e: "(m, (w, s)) \<in> set (taskbars r)"
    from a e have "snd (restore_taskbars sys (is_normal st1) (taskbars r)) w = Some True"
      by (rule restore_taskbars_memo)
    with rt ex [OF n]
    show "is_normal (snd (exit_sequence sys r st)) w = Some True" by simp
    assume "is_normal st w \<noteq> Some True"
    with st1 have "is_normal st1 w \<noteq> Some True" by simp
    with a e have "SendThemeChanged w \<in> set (fst (restore_taskbars sys (is_normal st1) (taskbars r)))"
      by (rule restore_taskbars_sends)
    with rt ex [OF n]
    show "SendThemeChanged w \<in> set (fst (exit_sequence sys r st))" by simp
  qed
  have G: "\<forall>w. SendThemeChanged w \<in> set (fst (exit_sequence sys r st)) \<longrightarrow>
             swca_available sys \<and> is_normal st w \<noteq> Some True
             \<and> w \<in> (fst \<circ> snd) ` set (taskbars r)"
    if n: "exit_reason r \<noteq> NewInstance"
  proof (intro allI impI)
    fix w assume "SendThemeChanged w \<in> set (fst (exit_sequence sys r st))"
    with ex [OF n] c1 have in2: "SendThemeChanged w \<in> set c2" by auto
    with rt have "SendThemeChanged w \<in> set (fst (restore_taskbars sys (is_normal st1) (taskbars r)))"
      by simp
    then have "swca_available sys \<and> is_normal st1 w \<noteq> Some True"
      by (rule restore_taskbars_sends_only)
    moreover from in2 c2 have "w \<in> (fst \<circ> snd) ` set (taskbars r)" by auto
    ultimately show "swca_available sys \<and> is_normal st w \<noteq> Some True
             \<and> w \<in> (fst \<circ> snd) ` set (taskbars r)"
      using st1 by simp
  qed
  have H: "is_normal (snd (exit_sequence sys r st)) = is_normal st"
    if n: "exit_reason r \<noteq> NewInstance" and a: "\<not> swca_available sys"
    using ex [OF n] rt restore_taskbars_without_entry_point [OF a, of "is_normal st1" "taskbars r"]
      st1 by simp
  from A B C D E F G H show ?thesis by blast
qed

theorem exit_restores_unless_new_instance_witness:
  "exit_reason (demo_run\<lparr>config_file := ''config.cfg''\<rparr>) \<noteq> NewInstance
   \<and> swca_available demo_os
   \<and> (1, (10, Normal)) \<in> set (taskbars (demo_run\<lparr>config_file := ''config.cfg''\<rparr>))
   \<and> exit_sequence demo_os (demo_run\<lparr>config_file := ''config.cfg''\<rparr>)
        \<lparr>is_normal = [10 \<mapsto> False], cached_peek = False, cached_taskbar = Some 10,
         counter = 3\<rparr>
       = ([ConfigSave ''config.cfg'', ClearLayered 15, SendThemeChanged 10,
           SendThemeChanged 11],
          \<lparr>is_normal = [10 \<mapsto> True, 11 \<mapsto> True], cached_peek = True,
           cached_taskbar = Some 10, counter = 3\<rparr>)
   \<and> is_normal (snd (exit_sequence demo_os (demo_run\<lparr>config_file := ''config.cfg''\<rparr>)
        \<lparr>is_normal = [10 \<mapsto> False], cached_peek = False, cached_taskbar = Some 10,
         counter = 3\<rparr>)) 10 = Some True
   \<and> exit_sequence demo_os (demo_run\<lparr>exit_reason := NewInstance\<rparr>) initial_statics
       = ([], initial_statics)"
proof -
  let ?r = "demo_run\<lparr>config_file := ''config.cfg''\<rparr>"
  let ?st = "\<lparr>is_normal = [10 \<mapsto> False], cached_peek = False, cached_taskbar = Some 10,
         counter = 3\<rparr>"
  have a: "exit_reason ?r \<noteq> NewInstance" "swca_available demo_os"
    "(1, (10, Normal)) \<in> set (taskbars ?r)"
    by (simp_all add: demo_run_value demo_os_def)
  have e: "exit_sequence demo_os ?r ?st
       = ([ConfigSave ''config.cfg'', ClearLayered 15, SendThemeChanged 10,
           SendThemeChanged 11],
          \<lparr>is_normal = [10 \<mapsto> True, 11 \<mapsto> True], cached_peek = True,
           cached_taskbar = Some 10, counter = 3\<rparr>)"
    by (simp add: exit_sequence_def Let_def demo_run_value TogglePeek_def SetWindowBlur_def
          initial_policy_def demo_os_def)
  have n: "exit_reason (demo_run\<lparr>exit_reason := NewInstance\<rparr>) = NewInstance" by simp
  from exit_restores_unless_new_instance [where r = ?r and sys = demo_os and st = ?st]
       exit_restores_unless_new_instance
         [where r = "demo_run\<lparr>exit_reason := NewInstance\<rparr>" and sys = demo_os
            and st = initial_statics]
       a e n
  show ?thesis by simp
qed

section \<open>One tick of the poll loop\<close>

subsection \<open>The loop over the taskbars\<close>



subsection \<open>The peek status during the pass\<close>

lemma EnumWindowsProcess_peek:
  "EnumWindowsProcess cfg sys w r = Some (Inr r') \<Longrightarrow>
     (should_show_peek r \<longrightarrow> should_show_peek r')
     \<and> (should_show_peek r' \<longrightarrow>
          should_show_peek r \<or> PEEK cfg = Dynamic \<or> PEEK cfg = DynamicGenerous)"
  by (auto simp: EnumWindowsProcess_def Let_def split: if_splits option.splits)

lemma EnumWindows_peek:
  "EnumWindows cfg sys ws r = Some (Inr r') \<Longrightarrow>
     (should_show_peek r \<longrightarrow> should_show_peek r')
     \<and> (should_show_peek r' \<longrightarrow>
          should_show_peek r \<or> PEEK cfg = Dynamic \<or> PEEK cfg = DynamicGenerous)"
proof (induction ws arbitrary: r)
  case Nil
  then show ?case by simp
next
  case (Cons w ws)
  from Cons.prems obtain r1 where
    1: "EnumWindowsProcess cfg sys w r = Some (Inr r1)" and
    2: "EnumWindows cfg sys ws r1 = Some (Inr r')"
    by (auto split: option.splits sum.splits)
  from EnumWindowsProcess_peek [OF 1] Cons.IH [OF 2] show ?case by blast
qed

lemma reconciliation_pass_peek:
  assumes "reconciliation_pass cfg sys r st = Some (Inr (calls, r', st'))"
  shows "(PEEK cfg = Enabled \<longrightarrow> should_show_peek r')
     \<and> (PEEK cfg = Disabled \<longrightarrow> \<not> should_show_peek r')
     \<and> cached_peek st' = should_show_peek r'
     \<and> is_normal st' = is_normal st \<and> counter st' = 0
     \<and> (EnumWindowsCall \<in> set calls \<longleftrightarrow> enumerates cfg)
     \<and> (DYNAMIC_WS cfg \<and> DYNAMIC_REGULAR_ON_PEEK cfg \<and> peek_active r \<longrightarrow>
          (\<forall>m w s. map_of (taskbars r') m = Some (w, s) \<longrightarrow> s = Normal))"
proof -
  let ?r2 = "r\<lparr>should_show_peek := (PEEK cfg = Enabled),
               taskbars := reset_states (taskbars r)\<rparr>"
  from assms obtain r3 r5 where
    enum: "if enumerates cfg
           then EnumWindows cfg sys (top_level_windows sys) ?r2 = Some (Inr r3)
           else r3 = ?r2" and
    start: "mark_start_menu cfg sys r3 = Inr r5" and
    r': "r' = (if DYNAMIC_WS cfg \<and> DYNAMIC_REGULAR_ON_PEEK cfg \<and> peek_active r5
               then r5\<lparr>taskbars := reset_states (taskbars r5)\<rparr> else r5)" and
    calls: "calls = (if enumerates cfg then [EnumWindowsCall] else [])
              @ fst (TogglePeek sys r3 (should_show_peek r3)
                       (if enumerates cfg then st\<lparr>counter := 0\<rparr> else st))" and
    st': "st' = (snd (TogglePeek sys r3 (should_show_peek r3)
                   (if enumerates cfg then st\<lparr>counter := 0\<rparr> else st)))\<lparr>counter := 0\<rparr>"
    by (rule reconciliation_pass_steps)
  note m5 = mark_start_menu_states [OF start]
  have p3: "(PEEK cfg = Enabled \<longrightarrow> should_show_peek r3)
     \<and> (PEEK cfg = Disabled \<longrightarrow> \<not> should_show_peek r3)"
  proof (cases "enumerates cfg")
    case True
    with enum have "EnumWindows cfg sys (top_level_windows sys) ?r2 = Some (Inr r3)" by simp
    from EnumWindows_peek [OF this] show ?thesis by auto
  next
    case False
    with enum show ?thesis by auto
  qed
  have a3: "peek_active r3 = peek_active r"
    using enum EnumWindows_surfaces [of cfg sys "top_level_windows sys" ?r2 r3]
    by (auto split: if_splits)
  have sp: "should_show_peek r' = should_show_peek r3" using r' m5 by simp
  have 1: "(PEEK cfg = Enabled \<longrightarrow> should_show_peek r')
     \<and> (PEEK cfg = Disabled \<longrightarrow> \<not> should_show_peek r')" using p3 sp by simp
  have 2: "cached_peek st' = should_show_peek r'"
    using st' sp by (simp add: TogglePeek_cached_peek)
  have 3: "is_normal st' = is_normal st \<and> counter st' = 0"
    using st' by (simp add: TogglePeek_others)
  have 4: "EnumWindowsCall \<in> set calls \<longleftrightarrow> enumerates cfg"
    using calls TogglePeek_calls [of sys r3 "should_show_peek r3"
                  "if enumerates cfg then st\<lparr>counter := 0\<rparr> else st"]
    by auto
  have 5: "\<forall>m w s. map_of (taskbars r') m = Some (w, s) \<longrightarrow> s = Normal"
    if "DYNAMIC_WS cfg \<and> DYNAMIC_REGULAR_ON_PEEK cfg \<and> peek_active r"
  proof -
    from that m5 a3 r' have "taskbars r' = reset_states (taskbars r5)" by simp
    then show ?thesis by (auto simp: map_of_reset_states)
  qed
  from 1 2 3 4 5 show ?thesis by blast
qed

subsection \<open>The counter\<close>

lemma SetTaskbarBlur_steps:
  assumes "SetTaskbarBlur cfg sys r st = Some (Inr (calls, r', st'))"
  obtains calls1 st1 where
    "if 10 \<le> counter st
     then reconciliation_pass cfg sys r st = Some (Inr (calls1, r', st1))
     else calls1 = [] \<and> r' = r \<and> st1 = st"
    "calls = calls1 @ fst (blur_taskbars cfg sys (is_normal st1) (taskbars r'))"
    "st' = st1\<lparr>is_normal := snd (blur_taskbars cfg sys (is_normal st1) (taskbars r')),
              counter := counter st1 + 1\<rparr>"
  using assms
  by (auto simp: SetTaskbarBlur_def split: if_splits option.splits sum.splits prod.splits)

lemma SetTaskbarBlur_counter:
  assumes "SetTaskbarBlur cfg sys r st = Some (Inr (calls, r', st'))"
  shows "counter st' = (if 10 \<le> counter st then 1 else counter st + 1)"
proof -
  from assms obtain calls1 st1 where
    p: "if 10 \<le> counter st
        then reconciliation_pass cfg sys r st = Some (Inr (calls1, r', st1))
        else calls1 = [] \<and> r' = r \<and> st1 = st" and
    st': "st' = st1\<lparr>is_normal := snd (blur_taskbars cfg sys (is_normal st1) (taskbars r')),
              counter := counter st1 + 1\<rparr>"
    by (rule SetTaskbarBlur_steps)
  show ?thesis
  proof (cases "10 \<le> counter st")
    case True
    with p have "reconciliation_pass cfg sys r st = Some (Inr (calls1, r', st1))" by simp
    from reconciliation_pass_peek [OF this] have "counter st1 = 0" by simp
    with st' True show ?thesis by simp
  next
    case False
    with p st' show ?thesis by simp
  qed
qed

lemma after_ticks_counter:
  "after_ticks n st \<Longrightarrow> counter st = (if n = 0 then 10 else int ((n - 1) mod 10) + 1)"
proof (induction rule: after_ticks.induct)
  case start
  then show ?case by (simp add: initial_statics_def)
next
  case (tick n st cfg sys r calls r' st')
  note step = SetTaskbarBlur_counter [OF tick.hyps(2)]
  show ?case
  proof (cases "n = 0")
    case True
    with step tick.IH show ?thesis by simp
  next
    case False
    then obtain k where k: "n = Suc k" by (cases n) auto
    with tick.IH have c: "counter st = int (k mod 10) + 1" by simp
    show ?thesis
    proof (cases "k mod 10 = 9")
      case True
      then have "Suc k mod 10 = 0" by presburger
      with step c True k show ?thesis by simp
    next
      case False
      then have "Suc k mod 10 = k mod 10 + 1" by presburger
      moreover have "k mod 10 < 10" by simp
      ultimately show ?thesis using step c k False by simp
    qed
  qed
qed


lemma counter_range: "after_ticks n st \<Longrightarrow> 1 \<le> counter st \<and> counter st \<le> 10"
proof -
  assume "after_ticks n st"
  then have c: "counter st = (if n = 0 then 10 else int ((n - 1) mod 10) + 1)"
    by (rule after_ticks_counter)
  have "(n - 1) mod 10 < 10" by simp
  with c show ?thesis by (simp split: if_splits)
qed




subsection \<open>What the pass leaves\<close>












subsection \<open>The tick\<close>




end
